theory Spec2Isabelle
  imports Main "HOL-Library.Sublist" "HOL-Library.Monad_Syntax"
begin

section \<open>Strings and numbers of the host language\<close>

text \<open>
  A TypeScript string is a sequence of UTF-16 code units. It is modelled as the list of
  its code units, each a natural number (below 65536 in every real string); \<open>length\<close>
  is then the \<^verbatim>\<open>.length\<close> of the source. ASCII literals are written through \<open>js\<close>.
  Dates (\<^verbatim>\<open>new Date()\<close>, \<^verbatim>\<open>Date.now()\<close>) are read from a clock the model receives as
  the parameter \<open>now\<close>, in milliseconds.
\<close>

type_synonym jstring = "nat list"

definition js :: "string \<Rightarrow> jstring" where
  "js s = map of_char s"

text \<open>\<^verbatim>\<open>String(n)\<close> for a non-negative integer, and for any integer.\<close>

function decimal :: "nat \<Rightarrow> jstring" where
  "decimal n = (if n < 10 then [48 + n] else decimal (n div 10) @ [48 + n mod 10])"
  by pat_completeness auto
termination
  by (relation "measure id") auto

declare decimal.simps [simp del]

definition decimal_int :: "int \<Rightarrow> jstring" where
  "decimal_int i = (if i < 0 then 45 # decimal (nat (- i)) else decimal (nat i))"

section \<open>Output blocks (core/types.ts)\<close>

datatype SessionStatus = IDLE | PROCESSING | WAITING_CONFIRM | ERROR

datatype OutputType = NORMAL | CONFIRM | ERROR_OUTPUT | SYSTEM

record OutputBlock =
  type :: OutputType
  content :: jstring
  timestamp :: nat
  requiresConfirm :: "bool option"
  confirmOptions :: "jstring list option"
  confirmId :: "jstring option"

section \<open>Output buffer (session/output-buffer.ts)\<close>

record OutputBuffer =
  buffer :: "OutputBlock list"
  totalSize :: int
  maxSize :: int

definition newOutputBuffer :: "int \<Rightarrow> OutputBuffer" where
  "newOutputBuffer m = \<lparr>buffer = [], totalSize = 0, maxSize = m\<rparr>"

text \<open>\<^verbatim>\<open>estimateSize\<close>: content length plus 100 for the metadata.\<close>

definition estimateSize :: "OutputBlock \<Rightarrow> int" where
  "estimateSize b = int (length (content b)) + 100"

text \<open>
  The eviction loop of \<^verbatim>\<open>append\<close>:
  \<^verbatim>\<open>while (this.totalSize + blockSize > this.maxSize && this.buffer.length > 0)\<close>
  shifts the oldest block out and subtracts its size. The function returns the blocks
  that stay and the running total.
\<close>

fun evict :: "int \<Rightarrow> int \<Rightarrow> OutputBlock list \<Rightarrow> int \<Rightarrow> OutputBlock list \<times> int" where
  "evict cap blockSize [] tot = ([], tot)"
| "evict cap blockSize (removed # rest) tot =
     (if tot + blockSize > cap
      then evict cap blockSize rest (tot - estimateSize removed)
      else (removed # rest, tot))"

definition append_block :: "OutputBlock \<Rightarrow> OutputBuffer \<Rightarrow> OutputBuffer" where
  "append_block block b =
     (let blockSize = estimateSize block;
          (kept, tot) = evict (maxSize b) blockSize (buffer b) (totalSize b)
      in b\<lparr>buffer := kept @ [block], totalSize := tot + blockSize\<rparr>)"

definition getAll :: "OutputBuffer \<Rightarrow> OutputBlock list" where
  "getAll b = buffer b"

definition fetchAndClear :: "OutputBuffer \<Rightarrow> OutputBlock list \<times> OutputBuffer" where
  "fetchAndClear b = (buffer b, b\<lparr>buffer := [], totalSize := 0\<rparr>)"

definition getLast :: "nat \<Rightarrow> OutputBuffer \<Rightarrow> OutputBlock list" where
  "getLast n b =
     (if n \<ge> length (buffer b) then buffer b
      else if n = 0 then buffer b
      else drop (length (buffer b) - n) (buffer b))"

definition clear :: "OutputBuffer \<Rightarrow> OutputBuffer" where
  "clear b = b\<lparr>buffer := [], totalSize := 0\<rparr>"

definition createOutputBlock :: "OutputType \<Rightarrow> jstring \<Rightarrow> nat \<Rightarrow> OutputBlock" where
  "createOutputBlock t c now =
     \<lparr>type = t, content = c, timestamp = now,
      requiresConfirm = None, confirmOptions = None, confirmId = None\<rparr>"

text \<open>A buffer after a sequence of appends, starting from the empty buffer of cap \<open>cap\<close>.\<close>

definition appendAll :: "int \<Rightarrow> OutputBlock list \<Rightarrow> OutputBuffer" where
  "appendAll cap us = foldl (\<lambda>b u. append_block u b) (newOutputBuffer cap) us"

text \<open>The sum of the estimated sizes of the blocks a buffer holds.\<close>

definition heldSize :: "OutputBuffer \<Rightarrow> int" where
  "heldSize b = sum_list (map estimateSize (buffer b))"

section \<open>Sessions (session/session.ts)\<close>

text \<open>
  The adapter a session holds (adapter/cli-adapter.ts and its two implementations): the
  tool name it was created for by the adapter registry, the executable, and its terminal.
  \<open>pty = None\<close> is the adapter's \<^verbatim>\<open>this.pty === null\<close>; \<open>Some ws\<close> is a spawned
  terminal together with the chunks written to it so far, oldest first.
\<close>

record Adapter =
  tool :: jstring
  executable :: jstring
  pty :: "jstring list option"

datatype error =
    SessionAlreadyStarted   \<comment> \<open>\<^verbatim>\<open>Session already started\<close>\<close>
  | StartupFailure          \<comment> \<open>whatever \<^verbatim>\<open>start\<close> rethrows from its \<^verbatim>\<open>try\<close> block\<close>
  | NotStarted              \<comment> \<open>\<^verbatim>\<open>Session not started\<close>\<close>
  | AdapterNotStarted       \<comment> \<open>\<^verbatim>\<open>Adapter not started\<close>\<close>
  | CapacityExceeded        \<comment> \<open>\<^verbatim>\<open>Maximum sessions (n) reached\<close>\<close>
  | AlreadyExists           \<comment> \<open>\<^verbatim>\<open>Session "x" already exists\<close>\<close>
  | NotFound                \<comment> \<open>\<^verbatim>\<open>Session "x" not found\<close>\<close>
  | NotFoundInChat          \<comment> \<open>\<^verbatim>\<open>Session "x" not found in chat c\<close>\<close>
  | RestartRejected         \<comment> \<open>\<^verbatim>\<open>Session "x" is not in error state\<close>\<close>

record PendingConfirm =
  pcId :: jstring
  pcOptions :: "jstring list"

record Session =
  name :: jstring
  workDir :: jstring
  status :: SessionStatus
  adapter :: "Adapter option"
  outBuffer :: OutputBuffer
  createdAt :: nat
  lastActiveAt :: nat
  pendingConfirm :: "PendingConfirm option"
  inputQueue :: "jstring list"
  isProcessingInput :: bool

text \<open>The constructor. Logging and the event bus do not touch this state and are left out.\<close>

definition newSession :: "jstring \<Rightarrow> jstring \<Rightarrow> int \<Rightarrow> nat \<Rightarrow> Session" where
  "newSession n dir bufferSize now =
     \<lparr>name = n, workDir = dir, status = IDLE, adapter = None,
      outBuffer = newOutputBuffer bufferSize, createdAt = now, lastActiveAt = now,
      pendingConfirm = None, inputQueue = [], isProcessingInput = False\<rparr>"

text \<open>\<^verbatim>\<open>a || b\<close> on strings: the empty string is falsy, as is \<^verbatim>\<open>undefined\<close>.\<close>

definition orElse :: "jstring option \<Rightarrow> jstring \<Rightarrow> jstring" where
  "orElse a b = (case a of None \<Rightarrow> b | Some x \<Rightarrow> if x = [] then b else x)"

definition handleOutput :: "OutputBlock \<Rightarrow> nat \<Rightarrow> Session \<Rightarrow> Session" where
  "handleOutput block now s =
     (case type block of
        NORMAL \<Rightarrow> s\<lparr>outBuffer := append_block block (outBuffer s)\<rparr>
      | CONFIRM \<Rightarrow>
          s\<lparr>status := WAITING_CONFIRM,
            pendingConfirm := Some
              \<lparr>pcId = orElse (confirmId block) (js ''confirm_'' @ decimal now),
               pcOptions = (case confirmOptions block of None \<Rightarrow> [] | Some os \<Rightarrow> os)\<rparr>\<rparr>
      | ERROR_OUTPUT \<Rightarrow> s\<lparr>outBuffer := append_block block (outBuffer s)\<rparr>
      | SYSTEM \<Rightarrow> s)"

definition handleExit :: "int \<Rightarrow> int \<Rightarrow> nat \<Rightarrow> Session \<Rightarrow> Session" where
  "handleExit code signal now s =
     (let s1 =
        (if code \<noteq> 0
         then s\<lparr>status := ERROR,
                outBuffer := append_block
                  (createOutputBlock ERROR_OUTPUT
                     (js ''Process exited with code '' @ decimal_int code) now)
                  (outBuffer s)\<rparr>
         else s\<lparr>status := IDLE\<rparr>)
      in s1\<lparr>adapter := None\<rparr>)"

text \<open>The listener for the adapter's \<^verbatim>\<open>idle\<close> event, registered in \<^verbatim>\<open>start\<close>.\<close>

definition handleIdle :: "Session \<Rightarrow> Session" where
  "handleIdle s = (if status s = PROCESSING then s\<lparr>status := IDLE\<rparr> else s)"

datatype AdapterEvent = Output OutputBlock | Exit int int | Idle

fun handleEvent :: "nat \<Rightarrow> Session \<Rightarrow> AdapterEvent \<Rightarrow> Session" where
  "handleEvent now s (Output block) = handleOutput block now s"
| "handleEvent now s (Exit code signal) = handleExit code signal now s"
| "handleEvent now s Idle = handleIdle s"

text \<open>
  What the environment does when \<^verbatim>\<open>start\<close> runs. \<open>SetupThrows\<close>: creating the working
  directory or \<^verbatim>\<open>adapterRegistry.create\<close> throws, so no adapter is assigned.
  \<open>AdapterStart evs ok\<close>: the adapter is created and assigned, the events \<open>evs\<close> reach the
  session while \<^verbatim>\<open>adapter.start()\<close> is awaited, and the await then resolves (\<open>ok\<close>) or
  rejects. The Claude adapter rejects exactly when the process exits during the warm-up
  (the exit event comes first); a throwing spawn is \<open>AdapterStart [] False\<close>.
\<close>

datatype Launch = SetupThrows | AdapterStart "AdapterEvent list" bool

definition start :: "jstring \<Rightarrow> jstring \<Rightarrow> nat \<Rightarrow> Launch \<Rightarrow> Session \<Rightarrow> Session \<times> (error + unit)" where
  "start cliTool exe now launch s =
     (if adapter s \<noteq> None then (s, Inl SessionAlreadyStarted)
      else case launch of
        SetupThrows \<Rightarrow> (s\<lparr>status := ERROR\<rparr>, Inl StartupFailure)
      | AdapterStart evs ok \<Rightarrow>
          (let s1 = s\<lparr>adapter := Some \<lparr>tool = cliTool, executable = exe,
                                        pty = (if ok then Some [] else None)\<rparr>\<rparr>;
               s2 = foldl (handleEvent now) s1 evs
           in if ok then (s2\<lparr>status := IDLE, lastActiveAt := now\<rparr>, Inr ())
              else (s2\<lparr>status := ERROR\<rparr>, Inl StartupFailure)))"

text \<open>
  The adapter's \<^verbatim>\<open>sendInput\<close> writes the text and then a carriage return; it throws
  when the adapter has no terminal. The drain loop of \<^verbatim>\<open>processInputQueue\<close> shifts
  each input before sending it, so a throw leaves the rest queued and the
  \<^verbatim>\<open>isProcessingInput\<close> flag set. The result is the queue left, the adapter, and whether
  the loop ran to its end.
\<close>

fun drain :: "jstring list \<Rightarrow> Adapter option \<Rightarrow> jstring list \<times> Adapter option \<times> bool" where
  "drain [] a = ([], a, True)"
| "drain (input # rest) a =
     (case a of
        None \<Rightarrow> (rest, a, False)
      | Some ad \<Rightarrow>
          (case pty ad of
             None \<Rightarrow> (rest, a, False)
           | Some ws \<Rightarrow> drain rest (Some (ad\<lparr>pty := Some (ws @ [input, [13]])\<rparr>))))"

definition processInputQueue :: "nat \<Rightarrow> Session \<Rightarrow> Session" where
  "processInputQueue now s =
     (if isProcessingInput s \<or> inputQueue s = [] then s
      else
        (let s1 = s\<lparr>isProcessingInput := True, status := PROCESSING, lastActiveAt := now\<rparr>;
             (q, a, finished) = drain (inputQueue s1) (adapter s1)
         in s1\<lparr>inputQueue := q, adapter := a, isProcessingInput := \<not> finished\<rparr>))"

definition sendInput :: "jstring \<Rightarrow> nat \<Rightarrow> Session \<Rightarrow> Session \<times> (error + unit)" where
  "sendInput input now s =
     (if adapter s = None then (s, Inl NotStarted)
      else (processInputQueue now (s\<lparr>inputQueue := inputQueue s @ [input]\<rparr>), Inr ()))"

definition sendRawInput :: "jstring \<Rightarrow> nat \<Rightarrow> Session \<Rightarrow> Session \<times> (error + unit)" where
  "sendRawInput data now s =
     (case adapter s of
        None \<Rightarrow> (s, Inl NotStarted)
      | Some ad \<Rightarrow>
          (case pty ad of
             None \<Rightarrow> (s, Inl AdapterNotStarted)
           | Some ws \<Rightarrow>
               (s\<lparr>adapter := Some (ad\<lparr>pty := Some (ws @ [data])\<rparr>), lastActiveAt := now\<rparr>,
                Inr ())))"

definition sendConfirmResponse :: "jstring \<Rightarrow> nat \<Rightarrow> Session \<Rightarrow> Session \<times> (error + unit)" where
  "sendConfirmResponse response now s =
     (if pendingConfirm s = None then (s, Inr ())
      else
        (let done = s\<lparr>pendingConfirm := None, status := PROCESSING, lastActiveAt := now\<rparr>
         in case adapter s of
              None \<Rightarrow> (done, Inr ())
            | Some ad \<Rightarrow>
                (case pty ad of
                   None \<Rightarrow> (s, Inl AdapterNotStarted)
                 | Some ws \<Rightarrow>
                     (done\<lparr>adapter := Some (ad\<lparr>pty := Some (ws @ [response, [13]])\<rparr>)\<rparr>,
                      Inr ()))))"

definition getBufferedOutput :: "Session \<Rightarrow> OutputBlock list \<times> Session" where
  "getBufferedOutput s =
     (let (blocks, b) = fetchAndClear (outBuffer s) in (blocks, s\<lparr>outBuffer := b\<rparr>))"

text \<open>\<^verbatim>\<open>close\<close> swallows whatever the adapter's close throws.\<close>

definition close :: "Session \<Rightarrow> Session" where
  "close s = s\<lparr>adapter := None, status := IDLE\<rparr>"

text \<open>
  One step of a session: a call of its public interface or an event from its adapter.
  The states a session can reach are those \<open>run\<close> produces from a new session.
\<close>

datatype SessionOp =
    Start jstring jstring Launch
  | SendInput jstring
  | SendRawInput jstring
  | SendConfirmResponse jstring
  | GetBufferedOutput
  | Close
  | Event AdapterEvent

fun step :: "nat \<Rightarrow> Session \<Rightarrow> SessionOp \<Rightarrow> Session" where
  "step now s (Start cliTool exe launch) = fst (start cliTool exe now launch s)"
| "step now s (SendInput input) = fst (sendInput input now s)"
| "step now s (SendRawInput data) = fst (sendRawInput data now s)"
| "step now s (SendConfirmResponse response) = fst (sendConfirmResponse response now s)"
| "step now s GetBufferedOutput = snd (getBufferedOutput s)"
| "step now s Close = close s"
| "step now s (Event e) = handleEvent now s e"

text \<open>Each operation of a run comes with the clock reading at which it happens.\<close>

fun run :: "Session \<Rightarrow> (nat \<times> SessionOp) list \<Rightarrow> Session" where
  "run s [] = s"
| "run s ((now, op) # ops) = run (step now s op) ops"

section \<open>Session manager (class SessionManager)\<close>

text \<open>
  A JavaScript \<^verbatim>\<open>Map\<close> iterates in insertion order, and \<^verbatim>\<open>closeSession\<close> and
  \<^verbatim>\<open>findAnyActiveSession\<close> depend on that order. A \<^verbatim>\<open>Map\<close> is therefore an association
  list, oldest key first; \<^verbatim>\<open>get\<close> is \<open>map_of\<close>. \<^verbatim>\<open>set\<close> overwrites the value of a key in
  place and puts a new key last, \<^verbatim>\<open>delete\<close> removes the key. A \<^verbatim>\<open>Set\<close> is the list of
  its members, oldest first.
\<close>

fun mapSet :: "'k \<Rightarrow> 'v \<Rightarrow> ('k \<times> 'v) list \<Rightarrow> ('k \<times> 'v) list" where
  "mapSet k v [] = [(k, v)]"
| "mapSet k v ((k', v') # m) = (if k' = k then (k, v) # m else (k', v') # mapSet k v m)"

definition mapDelete :: "'k \<Rightarrow> ('k \<times> 'v) list \<Rightarrow> ('k \<times> 'v) list" where
  "mapDelete k m = filter (\<lambda>kv. fst kv \<noteq> k) m"

definition mapHas :: "'k \<Rightarrow> ('k \<times> 'v) list \<Rightarrow> bool" where
  "mapHas k m = (map_of m k \<noteq> None)"

definition setAdd :: "'a \<Rightarrow> 'a list \<Rightarrow> 'a list" where
  "setAdd x xs = (if x \<in> set xs then xs else xs @ [x])"

definition setDelete :: "'a \<Rightarrow> 'a list \<Rightarrow> 'a list" where
  "setDelete x xs = filter (\<lambda>y. y \<noteq> x) xs"

text \<open>
  The part of the application configuration the manager reads: \<^verbatim>\<open>session.maxSessions\<close>,
  \<^verbatim>\<open>session.bufferSize\<close>, \<^verbatim>\<open>cli?.default\<close>, \<^verbatim>\<open>cli?.claude?.executable\<close> and
  \<^verbatim>\<open>cli?.opencode?.executable\<close>. The remaining settings (environment, extra arguments,
  message filters) are handed to the adapter and do not reach the state modelled here.
\<close>

record AppConfig =
  maxSessions :: int
  bufferSize :: int
  cliDefault :: "jstring option"
  claudeExecutable :: "jstring option"
  opencodeExecutable :: "jstring option"

record SessionManager =
  sessions :: "(jstring \<times> Session) list"
  activeSession :: "jstring option"
  config :: AppConfig
  chatSessions :: "(jstring \<times> jstring list) list"
  chatActiveSession :: "(jstring \<times> jstring) list"

definition createSessionManager :: "AppConfig \<Rightarrow> SessionManager" where
  "createSessionManager cfg =
     \<lparr>sessions = [], activeSession = None, config = cfg,
      chatSessions = [], chatActiveSession = []\<rparr>"

definition updateConfig :: "AppConfig \<Rightarrow> SessionManager \<Rightarrow> SessionManager" where
  "updateConfig cfg m = m\<lparr>config := cfg\<rparr>"

text \<open>
  \<^verbatim>\<open>currentCliConfig?.executable || defaultCliTool\<close>, where the configuration entry is
  the one of \<^verbatim>\<open>opencode\<close> when that is the tool and the one of \<^verbatim>\<open>claude\<close> otherwise.
\<close>

definition executableFor :: "AppConfig \<Rightarrow> jstring \<Rightarrow> jstring" where
  "executableFor cfg defaultCliTool =
     orElse (if defaultCliTool = js ''opencode'' then opencodeExecutable cfg
             else claudeExecutable cfg) defaultCliTool"

text \<open>
  \<^verbatim>\<open>if (!chatSessions.has(chatId)) chatSessions.set(chatId, new Set());\<close>
  \<^verbatim>\<open>chatSessions.get(chatId)!.add(name)\<close>.
\<close>

definition addToChat :: "jstring \<Rightarrow> jstring \<Rightarrow> (jstring \<times> jstring list) list \<Rightarrow> (jstring \<times> jstring list) list" where
  "addToChat chatId n cs =
     (case map_of cs chatId of
        None \<Rightarrow> mapSet chatId [n] cs
      | Some sessionSet \<Rightarrow> mapSet chatId (setAdd n sessionSet) cs)"

definition createSession ::
  "jstring \<Rightarrow> jstring \<Rightarrow> jstring \<Rightarrow> jstring option \<Rightarrow> nat \<Rightarrow> Launch \<Rightarrow> SessionManager
   \<Rightarrow> SessionManager \<times> (error + unit)" where
  "createSession n dir chatId cliTool now launch m =
     (if int (length (sessions m)) \<ge> maxSessions (config m) then (m, Inl CapacityExceeded)
      else if mapHas n (sessions m) then (m, Inl AlreadyExists)
      else
        (let defaultCliTool = orElse cliTool (orElse (cliDefault (config m)) (js ''claude''));
             session = newSession n dir (bufferSize (config m)) now;
             (session', result) =
               start defaultCliTool (executableFor (config m) defaultCliTool) now launch session
         in (m\<lparr>sessions := mapSet n session' (sessions m),
                chatSessions := addToChat chatId n (chatSessions m),
                chatActiveSession := mapSet chatId n (chatActiveSession m),
                activeSession := Some n\<rparr>,
             result)))"

definition getSession :: "jstring \<Rightarrow> SessionManager \<Rightarrow> Session option" where
  "getSession n m = map_of (sessions m) n"

text \<open>\<^verbatim>\<open>if (!sessionName) return undefined\<close> also rejects the empty name.\<close>

definition getChatActiveSession :: "jstring \<Rightarrow> SessionManager \<Rightarrow> Session option" where
  "getChatActiveSession chatId m =
     (case map_of (chatActiveSession m) chatId of
        None \<Rightarrow> None
      | Some sessionName \<Rightarrow> if sessionName = [] then None else map_of (sessions m) sessionName)"

definition setChatActiveSession :: "jstring \<Rightarrow> jstring \<Rightarrow> SessionManager \<Rightarrow> SessionManager \<times> (error + unit)" where
  "setChatActiveSession chatId n m =
     (if \<not> mapHas n (sessions m) then (m, Inl NotFound)
      else case map_of (chatSessions m) chatId of
        None \<Rightarrow> (m, Inl NotFoundInChat)
      | Some chatSessionSet \<Rightarrow>
          if n \<notin> set chatSessionSet then (m, Inl NotFoundInChat)
          else (m\<lparr>chatActiveSession := mapSet chatId n (chatActiveSession m),
                  activeSession := Some n\<rparr>, Inr ()))"

definition addSessionToChat :: "jstring \<Rightarrow> jstring \<Rightarrow> SessionManager \<Rightarrow> SessionManager \<times> (error + unit)" where
  "addSessionToChat n chatId m =
     (if \<not> mapHas n (sessions m) then (m, Inl NotFound)
      else (m\<lparr>chatSessions := addToChat chatId n (chatSessions m)\<rparr>, Inr ()))"

definition restartSession :: "jstring \<Rightarrow> nat \<Rightarrow> Launch \<Rightarrow> SessionManager \<Rightarrow> SessionManager \<times> (error + unit)" where
  "restartSession n now launch m =
     (case map_of (sessions m) n of
        None \<Rightarrow> (m, Inl NotFound)
      | Some session \<Rightarrow>
          if status session \<noteq> ERROR then (m, Inl RestartRejected)
          else
            (let defaultCliTool = orElse (cliDefault (config m)) (js ''claude'');
                 (session', result) =
                   start defaultCliTool (executableFor (config m) defaultCliTool) now launch session
             in (m\<lparr>sessions := mapSet n session' (sessions m)\<rparr>, result)))"

text \<open>
  The loop of \<^verbatim>\<open>closeSession\<close> over the entries of \<^verbatim>\<open>chatSessions\<close>: the name leaves
  every set, and where it was the chat's active session the first member left takes its
  place, or the chat loses its entry of \<^verbatim>\<open>chatActiveSession\<close> when none is left.
\<close>

fun unbindAll ::
  "jstring \<Rightarrow> (jstring \<times> jstring list) list \<Rightarrow> (jstring \<times> jstring) list
   \<Rightarrow> (jstring \<times> jstring list) list \<times> (jstring \<times> jstring) list" where
  "unbindAll n [] act = ([], act)"
| "unbindAll n ((chatId, sessionSet) # rest) act =
     (let remaining = setDelete n sessionSet;
          act' = (if map_of act chatId = Some n
                  then (case remaining of
                          r # _ \<Rightarrow> mapSet chatId r act
                        | [] \<Rightarrow> mapDelete chatId act)
                  else act);
          (cs, act'') = unbindAll n rest act'
      in ((chatId, remaining) # cs, act''))"

definition findAnyActiveSession :: "(jstring \<times> jstring) list \<Rightarrow> jstring option" where
  "findAnyActiveSession act = (case act of [] \<Rightarrow> None | (chatId, n) # _ \<Rightarrow> Some n)"

definition closeSession :: "jstring \<Rightarrow> SessionManager \<Rightarrow> SessionManager \<times> (error + unit)" where
  "closeSession n m =
     (case map_of (sessions m) n of
        None \<Rightarrow> (m, Inl NotFound)
      | Some session \<Rightarrow>
          (let (cs, act) = unbindAll n (chatSessions m) (chatActiveSession m)
           in (m\<lparr>sessions := mapDelete n (sessions m),
                  chatSessions := cs,
                  chatActiveSession := act,
                  activeSession := (if activeSession m = Some n then findAnyActiveSession act
                                    else activeSession m)\<rparr>,
               Inr ())))"

text \<open>
  \<^verbatim>\<open>closeChatSessions\<close> closes the members of the chat's set in order; a throwing
  \<^verbatim>\<open>closeSession\<close> ends the loop and the call.
\<close>

fun closeEach :: "jstring list \<Rightarrow> SessionManager \<Rightarrow> SessionManager \<times> (error + unit)" where
  "closeEach [] m = (m, Inr ())"
| "closeEach (n # ns) m =
     (case closeSession n m of
        (m', Inl e) \<Rightarrow> (m', Inl e)
      | (m', Inr u) \<Rightarrow> closeEach ns m')"

definition closeChatSessions :: "jstring \<Rightarrow> SessionManager \<Rightarrow> SessionManager \<times> (error + unit)" where
  "closeChatSessions chatId m =
     (case map_of (chatSessions m) chatId of
        None \<Rightarrow> (m, Inr ())
      | Some sessionSet \<Rightarrow>
          (case closeEach sessionSet m of
             (m', Inl e) \<Rightarrow> (m', Inl e)
           | (m', Inr u) \<Rightarrow>
               (m'\<lparr>chatSessions := mapDelete chatId (chatSessions m'),
                   chatActiveSession := mapDelete chatId (chatActiveSession m')\<rparr>, Inr ())))"

definition closeAll :: "SessionManager \<Rightarrow> SessionManager" where
  "closeAll m = m\<lparr>sessions := [], chatSessions := [], chatActiveSession := [],
                  activeSession := None\<rparr>"

definition getSessionChatId :: "jstring \<Rightarrow> SessionManager \<Rightarrow> jstring option" where
  "getSessionChatId sessionName m =
     map_option fst (find (\<lambda>entry. sessionName \<in> set (snd entry)) (chatSessions m))"

text \<open>The sessions bound to a chat, and the chat's active session name.\<close>

definition boundTo :: "SessionManager \<Rightarrow> jstring \<Rightarrow> jstring list" where
  "boundTo m chatId = (case map_of (chatSessions m) chatId of None \<Rightarrow> [] | Some ss \<Rightarrow> ss)"

definition activeOf :: "SessionManager \<Rightarrow> jstring \<Rightarrow> jstring option" where
  "activeOf m chatId = map_of (chatActiveSession m) chatId"

text \<open>The member \<^verbatim>\<open>closeSession\<close> promotes: the first of those left, if any.\<close>

definition promoted :: "jstring list \<Rightarrow> jstring option" where
  "promoted remaining = (case remaining of [] \<Rightarrow> None | r # _ \<Rightarrow> Some r)"

text \<open>Every chat with an active session has an entry in \<^verbatim>\<open>chatSessions\<close>.\<close>

definition bindingsClosed :: "SessionManager \<Rightarrow> bool" where
  "bindingsClosed m = (dom (map_of (chatActiveSession m)) \<subseteq> dom (map_of (chatSessions m)))"

text \<open>
  One step of the manager: a call of its interface, or a step of a registered session
  (its holders reach it through \<^verbatim>\<open>getSession\<close>; adapter events reach it directly).
\<close>

datatype ManagerOp =
    CreateSession jstring jstring jstring "jstring option" Launch
  | SetChatActiveSession jstring jstring
  | AddSessionToChat jstring jstring
  | RestartSession jstring Launch
  | CloseSession jstring
  | CloseChatSessions jstring
  | CloseAll
  | UpdateConfig AppConfig
  | OnSession jstring SessionOp

fun mstep :: "nat \<Rightarrow> SessionManager \<Rightarrow> ManagerOp \<Rightarrow> SessionManager" where
  "mstep now m (CreateSession n dir chatId cliTool launch) =
     fst (createSession n dir chatId cliTool now launch m)"
| "mstep now m (SetChatActiveSession chatId n) = fst (setChatActiveSession chatId n m)"
| "mstep now m (AddSessionToChat n chatId) = fst (addSessionToChat n chatId m)"
| "mstep now m (RestartSession n launch) = fst (restartSession n now launch m)"
| "mstep now m (CloseSession n) = fst (closeSession n m)"
| "mstep now m (CloseChatSessions chatId) = fst (closeChatSessions chatId m)"
| "mstep now m CloseAll = closeAll m"
| "mstep now m (UpdateConfig cfg) = updateConfig cfg m"
| "mstep now m (OnSession n op) =
     (case map_of (sessions m) n of
        None \<Rightarrow> m
      | Some session \<Rightarrow> m\<lparr>sessions := mapSet n (step now session op) (sessions m)\<rparr>)"

fun mrun :: "SessionManager \<Rightarrow> (nat \<times> ManagerOp) list \<Rightarrow> SessionManager" where
  "mrun m [] = m"
| "mrun m ((now, op) # ops) = mrun (mstep now m op) ops"

section \<open>Output parser (adapter/claude/output-parser.ts)\<close>

subsection \<open>Character classes and regular-expression pieces\<close>

text \<open>
  \<^verbatim>\<open>\d\<close> is \<^verbatim>\<open>[0-9]\<close>. \<^verbatim>\<open>\s\<close> and \<^verbatim>\<open>trim\<close> share one set: the white space and
  line terminators of ECMAScript. The dot does not match a line terminator. Under the
  \<^verbatim>\<open>i\<close> flag without the \<^verbatim>\<open>u\<close> flag an ASCII letter of a pattern matches exactly its
  two ASCII cases, so comparing after \<open>lower\<close> is exact for the ASCII patterns of the
  source; the two arrows of one pattern have no case.
\<close>

definition isDigit :: "nat \<Rightarrow> bool" where
  "isDigit c = (48 \<le> c \<and> c \<le> 57)"

definition isLetter :: "nat \<Rightarrow> bool" where
  "isLetter c = ((65 \<le> c \<and> c \<le> 90) \<or> (97 \<le> c \<and> c \<le> 122))"

definition isWhiteSpace :: "nat \<Rightarrow> bool" where
  "isWhiteSpace c =
     ((9 \<le> c \<and> c \<le> 13) \<or> c = 32 \<or> c = 160 \<or> c = 5760 \<or> (8192 \<le> c \<and> c \<le> 8202)
      \<or> c = 8232 \<or> c = 8233 \<or> c = 8239 \<or> c = 8287 \<or> c = 12288 \<or> c = 65279)"

definition isLineTerminator :: "nat \<Rightarrow> bool" where
  "isLineTerminator c = (c = 10 \<or> c = 13 \<or> c = 8232 \<or> c = 8233)"

definition lower :: "nat \<Rightarrow> nat" where
  "lower c = (if 65 \<le> c \<and> c \<le> 90 then c + 32 else c)"

definition trim :: "jstring \<Rightarrow> jstring" where
  "trim s = rev (dropWhile isWhiteSpace (rev (dropWhile isWhiteSpace s)))"

text \<open>\<^verbatim>\<open>parseInt(digits, 10)\<close> on a string of decimal digits, and \<^verbatim>\<open>c.repeat(n)\<close>.
  Numbers are natural numbers here; the source's are doubles, exact below \<open>2^53\<close>.\<close>

definition parseInt :: "jstring \<Rightarrow> nat" where
  "parseInt ds = foldl (\<lambda>n d. 10 * n + (d - 48)) 0 ds"

definition repeat :: "nat \<Rightarrow> nat \<Rightarrow> jstring" where
  "repeat c n = replicate n c"

text \<open>
  Matching at the start of a string. Each piece returns what is left after it, or
  \<open>None\<close>. \<open>many\<close> and \<open>many1\<close> are the greedy \<^verbatim>\<open>*\<close> and \<^verbatim>\<open>+\<close> on a character
  class; they are used only where the character that has to follow lies outside the
  class, so that giving characters back could not make a failed match succeed.
\<close>

definition lit :: "jstring \<Rightarrow> jstring \<Rightarrow> jstring option" where
  "lit p s = (if prefix p s then Some (drop (length p) s) else None)"

definition one :: "(nat \<Rightarrow> bool) \<Rightarrow> jstring \<Rightarrow> jstring option" where
  "one P s = (case s of [] \<Rightarrow> None | c # r \<Rightarrow> if P c then Some r else None)"

definition many :: "(nat \<Rightarrow> bool) \<Rightarrow> jstring \<Rightarrow> jstring \<times> jstring" where
  "many P s = (takeWhile P s, dropWhile P s)"

definition many1 :: "(nat \<Rightarrow> bool) \<Rightarrow> jstring \<Rightarrow> (jstring \<times> jstring) option" where
  "many1 P s = (if takeWhile P s = [] then None else Some (takeWhile P s, dropWhile P s))"

text \<open>\<^verbatim>\<open>regex.test(text)\<close> for a pattern without anchors: a match at some position.\<close>

fun anyAt :: "(jstring \<Rightarrow> bool) \<Rightarrow> jstring \<Rightarrow> bool" where
  "anyAt P [] = P []"
| "anyAt P (c # cs) = (P (c # cs) \<or> anyAt P cs)"

text \<open>\<^verbatim>\<open>text.match(regex)\<close>, the leftmost match, for a pattern that cannot match the
  empty string.\<close>

fun firstAt :: "(jstring \<Rightarrow> 'a option) \<Rightarrow> jstring \<Rightarrow> 'a option" where
  "firstAt f [] = None"
| "firstAt f (c # cs) = (case f (c # cs) of Some r \<Rightarrow> Some r | None \<Rightarrow> firstAt f cs)"

definition contains :: "jstring \<Rightarrow> jstring \<Rightarrow> bool" where
  "contains p t = anyAt (prefix p) t"

text \<open>An alternation of fixed strings under the \<^verbatim>\<open>i\<close> flag.\<close>

definition testAnyCI :: "jstring list \<Rightarrow> jstring \<Rightarrow> bool" where
  "testAnyCI ps t = (\<exists>p \<in> set ps. contains (map lower p) (map lower t))"

text \<open>
  \<^verbatim>\<open>text.replace(regex, ...)\<close> with the \<^verbatim>\<open>g\<close> flag. \<open>f\<close> matches at the start of what
  is left and returns the replacement and the rest after the match. Every pattern of
  the source consumes at least the escape character, so the rest is always shorter and
  the test on the lengths is there for the termination of the definition alone.
\<close>

fun replaceAll :: "(jstring \<Rightarrow> (jstring \<times> jstring) option) \<Rightarrow> jstring \<Rightarrow> jstring" where
  "replaceAll f [] = []"
| "replaceAll f (c # cs) =
     (case f (c # cs) of
        None \<Rightarrow> c # replaceAll f cs
      | Some (rep, rest) \<Rightarrow>
          if length rest \<le> length cs then rep @ replaceAll f rest
          else c # replaceAll f cs)"

subsection \<open>stripAnsi\<close>

text \<open>\<^verbatim>\<open>/\x1b\[(\d+);(\d+)(H|f)/\<close>: row, column, rest.\<close>

definition cursorPosition :: "jstring \<Rightarrow> (nat \<times> nat \<times> jstring) option" where
  "cursorPosition s = do {
     r \<leftarrow> lit [27, 91] s;
     (row, r) \<leftarrow> many1 isDigit r;
     r \<leftarrow> lit [59] r;
     (col, r) \<leftarrow> many1 isDigit r;
     r \<leftarrow> one (\<lambda>c. c = 72 \<or> c = 102) r;
     Some (parseInt row, parseInt col, r)
   }"

text \<open>The first \<^verbatim>\<open>replace\<close> of \<^verbatim>\<open>stripAnsi\<close>; its callback keeps \<^verbatim>\<open>currentLine\<close>.\<close>

fun cursorToText :: "nat \<Rightarrow> jstring \<Rightarrow> jstring" where
  "cursorToText currentLine [] = []"
| "cursorToText currentLine (c # cs) =
     (case cursorPosition (c # cs) of
        None \<Rightarrow> c # cursorToText currentLine cs
      | Some (newRow, newCol, rest) \<Rightarrow>
          if length rest \<le> length cs then
            (if newRow > currentLine
             then repeat 10 (newRow - currentLine)
                  @ (if newCol > 1 then repeat 32 (newCol - 1) else [])
                  @ cursorToText newRow rest
             else if newRow = currentLine \<and> newCol > 1
             then repeat 32 (newCol - 1) @ cursorToText currentLine rest
             else cursorToText currentLine rest)
          else c # cursorToText currentLine cs)"

text \<open>\<^verbatim>\<open>/\x1b\[(\d+)X/\<close> for a final character \<open>X\<close>, replaced by the count times \<open>c\<close>.\<close>

definition csiCount :: "nat \<Rightarrow> nat \<Rightarrow> jstring \<Rightarrow> (jstring \<times> jstring) option" where
  "csiCount final c s = do {
     r \<leftarrow> lit [27, 91] s;
     (count, r) \<leftarrow> many1 isDigit r;
     r \<leftarrow> lit [final] r;
     Some (repeat c (parseInt count), r)
   }"

text \<open>The seven patterns of \<^verbatim>\<open>ansiRegex\<close>, in the order of the array.\<close>

definition csiSequence :: "jstring \<Rightarrow> (jstring \<times> jstring) option" where
  "csiSequence s = do {
     r \<leftarrow> lit [27, 91] s;
     r \<leftarrow> one isLetter (snd (many (\<lambda>c. isDigit c \<or> c = 59 \<or> c = 63) r));
     Some ([], r)
   }"

definition oscBel :: "jstring \<Rightarrow> (jstring \<times> jstring) option" where
  "oscBel s = do {
     r \<leftarrow> lit [27, 93] s;
     r \<leftarrow> lit [7] (snd (many (\<lambda>c. c \<noteq> 7) r));
     Some ([], r)
   }"

definition oscSt :: "jstring \<Rightarrow> (jstring \<times> jstring) option" where
  "oscSt s = do {
     r \<leftarrow> lit [27, 93] s;
     let r = snd (many (\<lambda>c. c \<noteq> 27) r);
     Some ([], case lit [27, 92] r of Some r' \<Rightarrow> r' | None \<Rightarrow> r)
   }"

definition charsetSelect :: "jstring \<Rightarrow> (jstring \<times> jstring) option" where
  "charsetSelect s = do {
     r \<leftarrow> lit [27] s;
     r \<leftarrow> one (\<lambda>c. c = 40 \<or> c = 41) r;
     r \<leftarrow> one (\<lambda>c. isLetter c \<or> isDigit c) r;
     Some ([], r)
   }"

definition escLetter :: "jstring \<Rightarrow> (jstring \<times> jstring) option" where
  "escLetter s = do {
     r \<leftarrow> lit [27] s;
     r \<leftarrow> one (\<lambda>c. c = 41 \<or> c = 91 \<or> c = 93 \<or> isLetter c) r;
     Some ([], r)
   }"

definition linkSequence :: "jstring \<Rightarrow> (jstring \<times> jstring) option" where
  "linkSequence s = do {
     r \<leftarrow> lit [27, 93, 56, 59, 59] s;
     r \<leftarrow> lit [27, 92] (snd (many (\<lambda>c. c \<noteq> 27) r));
     Some ([], r)
   }"

definition sgrSequence :: "jstring \<Rightarrow> (jstring \<times> jstring) option" where
  "sgrSequence s = do {
     r \<leftarrow> lit [27, 91] s;
     r \<leftarrow> lit [109] (snd (many (\<lambda>c. isDigit c \<or> c = 59) r));
     Some ([], r)
   }"

text \<open>\<^verbatim>\<open>/[\x00-\x08\x0b\x0c\x0e-\x1f]/\<close>.\<close>

definition isControl :: "nat \<Rightarrow> bool" where
  "isControl c = (c \<le> 8 \<or> c = 11 \<or> c = 12 \<or> (14 \<le> c \<and> c \<le> 31))"

definition stripAnsi :: "jstring \<Rightarrow> jstring" where
  "stripAnsi text =
     (let result = cursorToText 0 text;
          result = replaceAll (csiCount 67 32) result;
          result = replaceAll (csiCount 64 32) result;
          result = replaceAll (csiCount 66 10) result;
          result = foldl (\<lambda>result regex. replaceAll regex result) result
                     [csiSequence, oscBel, oscSt, charsetSelect, escLetter,
                      linkSequence, sgrSequence]
      in filter (\<lambda>c. \<not> isControl c) result)"

subsection \<open>Interactive selections\<close>

text \<open>\<^verbatim>\<open>text.split('\n')\<close>.\<close>

fun splitLines :: "jstring \<Rightarrow> jstring list" where
  "splitLines [] = [[]]"
| "splitLines (c # cs) =
     (if c = 10 then [] # splitLines cs
      else case splitLines cs of
             line # rest \<Rightarrow> (c # line) # rest
           | [] \<Rightarrow> [[c]])"

text \<open>
  The tail \<^verbatim>\<open>\s*(.+)$\<close> shared by the three line patterns, from the position after the
  marker or separator to the end of the string; the result is the captured group. The
  greedy \<^verbatim>\<open>\s*\<close> takes all leading white space and the group takes the rest, which
  must be free of line terminators. When nothing but white space is left, \<^verbatim>\<open>\s*\<close>
  gives back its last character to the group.
\<close>

definition restCapture :: "jstring \<Rightarrow> jstring option" where
  "restCapture r =
     (let rest = dropWhile isWhiteSpace r
      in if rest \<noteq> [] then (if \<exists>c \<in> set rest. isLineTerminator c then None else Some rest)
         else if r = [] \<or> isLineTerminator (last r) then None
         else Some [last r])"

text \<open>\<^verbatim>\<open>/^\s*[MARKERS]\s*(.+)$/\<close>, where the class holds the four markers U+276F,
  U+25BA, U+2192 and the greater-than sign; the result is the group.\<close>

definition isMarker :: "nat \<Rightarrow> bool" where
  "isMarker c = (c = 10095 \<or> c = 9658 \<or> c = 8594 \<or> c = 62)"

definition arrowPattern :: "jstring \<Rightarrow> jstring option" where
  "arrowPattern s = do {
     r \<leftarrow> one isMarker (dropWhile isWhiteSpace s);
     restCapture r
   }"

text \<open>\<^verbatim>\<open>/^\s*(\d+)[.)\]]\s*(.+)$/\<close>; the result is the second group.\<close>

definition numberedPattern :: "jstring \<Rightarrow> jstring option" where
  "numberedPattern s = do {
     (num, r) \<leftarrow> many1 isDigit (dropWhile isWhiteSpace s);
     r \<leftarrow> one (\<lambda>c. c = 46 \<or> c = 41 \<or> c = 93) r;
     restCapture r
   }"

text \<open>\<^verbatim>\<open>/^(\d+)\.\s*(.+)$/\<close>; the result is the second group.\<close>

definition numberDot :: "jstring \<Rightarrow> jstring option" where
  "numberDot s = do {
     (num, r) \<leftarrow> many1 isDigit s;
     r \<leftarrow> lit [46] r;
     restCapture r
   }"

text \<open>\<^verbatim>\<open>/^\s{2,}/\<close>.\<close>

definition indented :: "jstring \<Rightarrow> bool" where
  "indented s = (case s of a # b # r \<Rightarrow> isWhiteSpace a \<and> isWhiteSpace b | _ \<Rightarrow> False)"

text \<open>\<^verbatim>\<open>/don't ask|ctrl\+t|shift\+tab|tab to cycle/i\<close>.\<close>

definition inputHint :: "jstring \<Rightarrow> bool" where
  "inputHint t =
     testAnyCI [js ''don'' @ [39] @ js ''t ask'', js ''ctrl+t'', js ''shift+tab'',
                js ''tab to cycle''] t"

text \<open>\<^verbatim>\<open>/Press .* to select/i\<close> at the start of a string.\<close>

fun gapThen :: "jstring \<Rightarrow> jstring \<Rightarrow> bool" where
  "gapThen p [] = prefix p []"
| "gapThen p (c # cs) = (prefix p (c # cs) \<or> (\<not> isLineTerminator c \<and> gapThen p cs))"

definition pressToSelect :: "jstring \<Rightarrow> bool" where
  "pressToSelect t =
     anyAt (\<lambda>s. case lit (js ''press '') s of
                   None \<Rightarrow> False
                 | Some r \<Rightarrow> gapThen (js '' to select'') r) (map lower t)"

definition hasConfirmHint :: "jstring \<Rightarrow> bool" where
  "hasConfirmHint t =
     (testAnyCI [js ''Enter to confirm'', js ''Press Enter'', js ''to confirm''] t
      \<or> testAnyCI [js ''Esc to cancel'', js ''to cancel''] t
      \<or> testAnyCI [js ''use keys'', js ''use arrow keys'',
                    js ''use '' @ [8593, 8595] @ js '' keys''] t
      \<or> pressToSelect t)"

record InteractiveSelect =
  selId :: jstring
  prompt :: jstring
  options :: "jstring list"
  selectedIndex :: nat

text \<open>The variables the loop over the lines updates.\<close>

record Scan =
  scanOptions :: "jstring list"
  scanSelected :: nat
  promptText :: jstring
  foundInteractive :: bool
  foundArrow :: bool

text \<open>
  The search for the prompt text, from line \<open>i - 1\<close> down to line 0: \<open>prev\<close> holds the
  lines before the current one, nearest first. The empty string is the result when no
  line qualifies, as \<^verbatim>\<open>promptText\<close> then keeps its initial value.
\<close>

fun findPrompt :: "jstring list \<Rightarrow> jstring" where
  "findPrompt [] = []"
| "findPrompt (l # prev) =
     (let prevLine = trim l
      in if prevLine \<noteq> [] \<and> arrowPattern prevLine = None \<and> numberedPattern prevLine = None
         then prevLine else findPrompt prev)"

definition pushOption :: "jstring \<Rightarrow> Scan \<Rightarrow> Scan" where
  "pushOption opt st = st\<lparr>scanOptions := scanOptions st @ [opt]\<rparr>"

text \<open>The body of the loop for one line.\<close>

definition scanLine :: "bool \<Rightarrow> jstring list \<Rightarrow> jstring \<Rightarrow> Scan \<Rightarrow> Scan" where
  "scanLine hint prev line st =
     (let cleanLine = trim line
      in if cleanLine = [] then st
         else case arrowPattern cleanLine of
           Some group1 \<Rightarrow>
             (let optionText = trim group1;
                  optionText = (case numberDot optionText of
                                  Some group2 \<Rightarrow> trim group2
                                | None \<Rightarrow> optionText);
                  st = pushOption optionText (st\<lparr>foundInteractive := True, foundArrow := True\<rparr>);
                  st = st\<lparr>scanSelected := length (scanOptions st) - 1\<rparr>
              in if promptText st = [] then st\<lparr>promptText := findPrompt prev\<rparr> else st)
         | None \<Rightarrow>
             (case (if foundArrow st then numberedPattern cleanLine else None) of
                Some group2 \<Rightarrow> pushOption (trim group2) st
              | None \<Rightarrow>
                  if foundArrow st \<and> indented line
                     \<and> \<not> testAnyCI [js ''Enter to confirm'', js ''Esc to cancel''] cleanLine
                  then pushOption cleanLine st
                  else case (if hint \<and> \<not> foundArrow st then numberedPattern cleanLine
                             else None) of
                         Some group2 \<Rightarrow> pushOption (trim group2) (st\<lparr>foundInteractive := True\<rparr>)
                       | None \<Rightarrow> st))"

fun scanLines :: "bool \<Rightarrow> jstring list \<Rightarrow> jstring list \<Rightarrow> Scan \<Rightarrow> Scan" where
  "scanLines hint prev [] st = st"
| "scanLines hint prev (line # rest) st =
     scanLines hint (line # prev) rest (scanLine hint prev line st)"

text \<open>\<^verbatim>\<open>/yes|no|confirm|cancel|proceed|abort|continue|exit/i\<close> on some option.\<close>

definition hasConfirmKeywords :: "jstring list \<Rightarrow> bool" where
  "hasConfirmKeywords opts =
     (\<exists>opt \<in> set opts.
        testAnyCI [js ''yes'', js ''no'', js ''confirm'', js ''cancel'', js ''proceed'',
                   js ''abort'', js ''continue'', js ''exit''] opt)"

text \<open>The options the loop collects from a chunk.\<close>

definition collect :: "jstring \<Rightarrow> Scan" where
  "collect data =
     (let cleanData = stripAnsi data
      in scanLines (hasConfirmHint cleanData) [] (splitLines cleanData)
           \<lparr>scanOptions = [], scanSelected = 0, promptText = [],
            foundInteractive = False, foundArrow = False\<rparr>)"

definition detectInteractiveSelect :: "jstring \<Rightarrow> nat \<Rightarrow> InteractiveSelect option" where
  "detectInteractiveSelect data now =
     (let cleanData = stripAnsi data
      in if inputHint cleanData then None
         else
           (let st = collect data
            in if length (scanOptions st) \<ge> 2
                  \<and> (hasConfirmHint cleanData \<or> hasConfirmKeywords (scanOptions st))
               then Some \<lparr>selId = js ''interactive_'' @ decimal now,
                          prompt = (if promptText st = []
                                    then [35831, 36873, 25321, 19968, 20010, 36873, 39033]
                                    else promptText st),
                          options = scanOptions st,
                          selectedIndex = scanSelected st\<rparr>
               else None))"

text \<open>\<^verbatim>\<open>formatInteractiveSelect\<close>; the fixed texts are given by their code units.\<close>

definition rule30 :: jstring where
  "rule30 = replicate 30 9473 @ [10]"

fun formatOptions :: "nat \<Rightarrow> nat \<Rightarrow> jstring list \<Rightarrow> jstring" where
  "formatOptions sel index [] = []"
| "formatOptions sel index (option # rest) =
     (if index = sel then [9654, 32] else js ''   '')
     @ decimal (index + 1) @ js ''. '' @ option @ [10]
     @ formatOptions sel (index + 1) rest"

definition formatInteractiveSelect :: "InteractiveSelect \<Rightarrow> jstring" where
  "formatInteractiveSelect select =
     rule30
     @ [55357, 56523, 32] @ prompt select @ [10]
     @ rule30 @ [10]
     @ [35831, 22238, 22797, 36873, 39033, 32534, 21495, 65288, 49, 45]
     @ decimal (length (options select))
     @ [65289, 25110, 36873, 39033, 20869, 23481, 65306, 10, 10]
     @ formatOptions (selectedIndex select) 0 (options select)
     @ [10, 55357, 56481, 32, 25552, 31034, 65306, 30452, 25509, 21457, 36865, 25968,
        23383, 65288, 22914, 32, 34, 49, 34, 65289, 25110, 36873, 39033, 20869, 23481,
        21363, 21487, 36873, 25321]"

subsection \<open>Bracketed confirmations, errors, and the classifier\<close>

text \<open>\<^verbatim>\<open>/\[(\d+)-(\d+)\]/\<close> at the start of a string: the two numbers.\<close>

definition rangeAt :: "jstring \<Rightarrow> (nat \<times> nat) option" where
  "rangeAt s = do {
     r \<leftarrow> lit [91] s;
     (first, r) \<leftarrow> many1 isDigit r;
     r \<leftarrow> lit [45] r;
     (final, r) \<leftarrow> many1 isDigit r;
     r \<leftarrow> lit [93] r;
     Some (parseInt first, parseInt final)
   }"

definition detectConfirmPrompt :: "jstring \<Rightarrow> nat \<Rightarrow> (jstring list \<times> jstring) option" where
  "detectConfirmPrompt data now =
     (let cleanData = stripAnsi data;
          ident = js ''confirm_'' @ decimal now
      in if testAnyCI [js ''[Y/N]'', js ''[y/n]''] cleanData
         then Some ([js ''Y'', js ''N''], ident)
         else if testAnyCI [js ''[Yes/No]'', js ''[yes/no]''] cleanData
         then Some ([js ''Yes'', js ''No''], ident)
         else case firstAt rangeAt cleanData of
           Some (first, final) \<Rightarrow> Some (map decimal [first..<Suc final], ident)
         | None \<Rightarrow>
             if testAnyCI [js ''[Continue]'', js ''[Cancel]''] cleanData
             then Some ([js ''Continue'', js ''Cancel''], ident)
             else if testAnyCI [js ''[Proceed]'', js ''[Abort]''] cleanData
             then Some ([js ''Proceed'', js ''Abort''], ident)
             else None)"

text \<open>A pattern anchored by \<^verbatim>\<open>^\<close> under the \<^verbatim>\<open>m\<close> flag: at the start of the text or
  right after a line terminator.\<close>

fun atLineStart :: "jstring \<Rightarrow> bool \<Rightarrow> jstring \<Rightarrow> bool" where
  "atLineStart p here [] = (here \<and> p = [])"
| "atLineStart p here (c # cs) =
     ((here \<and> prefix p (c # cs)) \<or> atLineStart p (isLineTerminator c) cs)"

definition detectError :: "jstring \<Rightarrow> bool" where
  "detectError data =
     (let cleanData = stripAnsi data
      in atLineStart (js ''Error:'') True cleanData
         \<or> atLineStart (js ''ERROR:'') True cleanData
         \<or> testAnyCI [js ''Failed to:''] cleanData
         \<or> testAnyCI [js ''Exception:''] cleanData
         \<or> testAnyCI [js ''command not found''] cleanData
         \<or> testAnyCI [js ''permission denied''] cleanData)"

definition createBlock :: "OutputType \<Rightarrow> jstring \<Rightarrow> nat \<Rightarrow> OutputBlock" where
  "createBlock t c now =
     \<lparr>type = t, content = trim c, timestamp = now,
      requiresConfirm = None, confirmOptions = None, confirmId = None\<rparr>"

definition confirmBlock :: "jstring \<Rightarrow> nat \<Rightarrow> jstring list \<Rightarrow> jstring \<Rightarrow> OutputBlock" where
  "confirmBlock c now opts ident =
     (createBlock CONFIRM c now)
       \<lparr>requiresConfirm := Some True, confirmOptions := Some opts, confirmId := Some ident\<rparr>"

definition parse :: "jstring \<Rightarrow> nat \<Rightarrow> OutputBlock list" where
  "parse data now =
     (case detectInteractiveSelect data now of
        Some interactiveSelect \<Rightarrow>
          [confirmBlock (formatInteractiveSelect interactiveSelect) now
             (options interactiveSelect) (selId interactiveSelect)]
      | None \<Rightarrow>
          (case detectConfirmPrompt data now of
             Some (opts, ident) \<Rightarrow> [confirmBlock (trim (stripAnsi data)) now opts ident]
           | None \<Rightarrow>
               (let isErrorCode = detectError data;
                    cleanContent = trim (stripAnsi data)
                in if cleanContent \<noteq> []
                   then [createBlock (if isErrorCode then ERROR_OUTPUT else NORMAL)
                           cleanContent now]
                   else [])))"

section \<open>Example data\<close>

text \<open>Concrete blocks, sessions and registries on which the theorems below are run.\<close>

definition exBlock :: "string \<Rightarrow> OutputBlock" where
  "exBlock c = createOutputBlock NORMAL (js c) 0"

definition exConfirm :: OutputBlock where
  "exConfirm = confirmBlock (js ''Overwrite? [Y/N]'') 2 [js ''Y'', js ''N''] (js ''confirm_2'')"

definition exSession :: Session where
  "exSession = newSession (js ''s1'') (js ''/work'') 1000 0"

text \<open>A session that was started, was shown a confirmation, and whose process then exited
  with code 0.\<close>

definition exConfirmThenExit :: "(nat \<times> SessionOp) list" where
  "exConfirmThenExit =
     [(1, Start (js ''claude'') (js ''claude'') (AdapterStart [] True)),
      (2, Event (Output exConfirm)),
      (3, Event (Exit 0 0))]"

definition exConfig :: AppConfig where
  "exConfig = \<lparr>maxSessions = 2, bufferSize = 1000, cliDefault = None,
               claudeExecutable = None, opencodeExecutable = None\<rparr>"

text \<open>Two sessions created for the chat \<open>c1\<close>; the registry of \<open>exConfig\<close> is then full.\<close>

definition exTwo :: "(nat \<times> ManagerOp) list" where
  "exTwo =
     [(1, CreateSession (js ''a'') (js ''/work'') (js ''c1'') None (AdapterStart [] True)),
      (2, CreateSession (js ''b'') (js ''/work'') (js ''c1'') None (AdapterStart [] True))]"

text \<open>A session whose process exits with code 1 after a successful start.\<close>

definition exCrashed :: "(nat \<times> ManagerOp) list" where
  "exCrashed =
     [(1, CreateSession (js ''a'') (js ''/work'') (js ''c1'') None (AdapterStart [] True)),
      (2, OnSession (js ''a'') (Event (Exit 1 0)))]"

text \<open>A session whose adapter failed to start without an exit event.\<close>

definition exFailedStart :: "(nat \<times> ManagerOp) list" where
  "exFailedStart =
     [(1, CreateSession (js ''a'') (js ''/work'') (js ''c1'') None (AdapterStart [] False))]"

text \<open>A launch in which the process exits with code 1 during the warm-up: the exit
  event reaches the session and the adapter's \<^verbatim>\<open>start\<close> rejects.\<close>

definition exEarlyExit :: Launch where
  "exEarlyExit = AdapterStart [Exit 1 0] False"

definition registry :: "(nat \<times> ManagerOp) list \<Rightarrow> SessionManager" where
  "registry ops = mrun (createSessionManager exConfig) ops"

text \<open>
  The chunks of the selection example: a prompt line \<open>p\<close>, the line with the pointer and
  \<^verbatim>\<open>Yes, proceed\<close>, the indented line \<^verbatim>\<open>No, abort\<close>, and a last line \<open>h\<close>.
\<close>

definition yesLine :: jstring where
  "yesLine = [10095] @ js '' Yes, proceed''"

definition noLine :: jstring where
  "noLine = js ''  No, abort''"

definition yesNoChunk :: "jstring \<Rightarrow> jstring \<Rightarrow> jstring" where
  "yesNoChunk p h = p @ [10] @ yesLine @ [10] @ noLine @ [10] @ h"

text \<open>A line of printable text: no control character that \<^verbatim>\<open>stripAnsi\<close> removes (the
  escape character is one of them) and no line feed.\<close>

definition plainLine :: "jstring \<Rightarrow> bool" where
  "plainLine s = (\<forall>c \<in> set s. \<not> isControl c \<and> c \<noteq> 10)"

text \<open>A prompt line: not blank, and neither of the two option patterns matches it.\<close>

definition promptLine :: "jstring \<Rightarrow> bool" where
  "promptLine p =
     (trim p \<noteq> [] \<and> arrowPattern (trim p) = None \<and> numberedPattern (trim p) = None)"

text \<open>
  A last line the loop does not take for an option once a pointer line was seen: blank,
  or matched by neither option pattern and, if indented, holding one of the two phrases
  the loop excludes.
\<close>

definition trailingLine :: "jstring \<Rightarrow> bool" where
  "trailingLine h =
     (trim h = [] \<or>
      (arrowPattern (trim h) = None \<and> numberedPattern (trim h) = None
       \<and> (indented h \<longrightarrow> testAnyCI [js ''Enter to confirm'', js ''Esc to cancel''] (trim h))))"

definition scan0 :: Scan where
  "scan0 = \<lparr>scanOptions = [], scanSelected = 0, promptText = [],
            foundInteractive = False, foundArrow = False\<rparr>"

text \<open>
  A unit of an interactive selection: a Confirm unit whose identifier is one that
  \<^verbatim>\<open>detectInteractiveSelect\<close> makes (\<^verbatim>\<open>interactive_\<close> and the clock); the bracketed
  confirmations get \<^verbatim>\<open>confirm_\<close> and the clock.
\<close>

definition isInteractive :: "OutputBlock \<Rightarrow> bool" where
  "isInteractive b =
     (case confirmId b of
        None \<Rightarrow> False
      | Some i \<Rightarrow> type b = CONFIRM \<and> prefix (js ''interactive_'') i)"

definition exPrompt :: jstring where
  "exPrompt = js ''Do you want to proceed?''"

definition exHint :: jstring where
  "exHint = js ''Enter to confirm''"

definition exTabHint :: jstring where
  "exTabHint = js ''shift+tab to cycle''"





section \<open>The output buffer stays within its cap\<close>

lemma sum_sizes_nonneg: "0 \<le> sum_list (map estimateSize xs)"
  by (induction xs) (simp_all add: estimateSize_def)

lemma evict_sum:
  "evict cap bs xs tot = (kept, t') \<Longrightarrow> tot = sum_list (map estimateSize xs) \<Longrightarrow>
   t' = sum_list (map estimateSize kept)"
  by (induction xs arbitrary: tot) (auto split: if_splits)

lemma evict_drop: "evict cap bs xs tot = (kept, t') \<Longrightarrow> \<exists>k. kept = drop k xs"
proof (induction xs arbitrary: tot)
  case Nil
  then show ?case by simp
next
  case (Cons x xs)
  show ?case
  proof (cases "tot + bs > cap")
    case True
    with Cons.prems have "evict cap bs xs (tot - estimateSize x) = (kept, t')" by simp
    then obtain k where "kept = drop k xs" using Cons.IH by blast
    then have "kept = drop (Suc k) (x # xs)" by simp
    then show ?thesis by blast
  next
    case False
    with Cons.prems have "kept = drop 0 (x # xs)" by simp
    then show ?thesis by blast
  qed
qed

lemma evict_fits:
  "evict cap bs xs tot = (kept, t') \<Longrightarrow> kept \<noteq> [] \<Longrightarrow> t' + bs \<le> cap"
  by (induction xs arbitrary: tot) (auto split: if_splits)

lemma evict_oversized:
  "evict cap bs xs tot = (kept, t') \<Longrightarrow> tot = sum_list (map estimateSize xs) \<Longrightarrow> cap < bs \<Longrightarrow>
   kept = []"
proof (induction xs arbitrary: tot)
  case Nil
  then show ?case by simp
next
  case (Cons x xs)
  have "0 \<le> sum_list (map estimateSize (x # xs))" by (rule sum_sizes_nonneg)
  with Cons.prems have "tot + bs > cap" by simp
  with Cons.prems have "evict cap bs xs (tot - estimateSize x) = (kept, t')" by simp
  moreover from Cons.prems have "tot - estimateSize x = sum_list (map estimateSize xs)" by simp
  ultimately show ?case using Cons.IH Cons.prems(3) by blast
qed

lemma append_consistent:
  "totalSize b = heldSize b \<Longrightarrow> totalSize (append_block u b) = heldSize (append_block u b)"
  by (auto simp: append_block_def heldSize_def Let_def split: prod.splits dest: evict_sum)

lemma appendAll_snoc: "appendAll cap (us @ [u]) = append_block u (appendAll cap us)"
  by (simp add: appendAll_def)

lemma appendAll_consistent: "totalSize (appendAll cap us) = heldSize (appendAll cap us)"
proof (induction us rule: rev_induct)
  case Nil
  then show ?case by (simp add: appendAll_def newOutputBuffer_def heldSize_def)
next
  case (snoc u us)
  then show ?case by (simp add: appendAll_snoc append_consistent)
qed

lemma append_maxSize: "maxSize (append_block u b) = maxSize b"
  by (simp add: append_block_def Let_def split: prod.splits)

lemma appendAll_maxSize: "maxSize (appendAll cap us) = cap"
proof (induction us rule: rev_induct)
  case Nil
  then show ?case by (simp add: appendAll_def newOutputBuffer_def)
next
  case (snoc u us)
  then show ?case by (simp add: appendAll_snoc append_maxSize)
qed

text \<open>One append on a buffer whose running total is the sum of the sizes it holds.\<close>

lemma append_step:
  assumes "totalSize b = heldSize b"
  shows "(\<exists>k. buffer (append_block u b) = drop k (buffer b) @ [u])
       \<and> (estimateSize u \<le> maxSize b \<longrightarrow> totalSize (append_block u b) \<le> maxSize b)
       \<and> (maxSize b < estimateSize u \<longrightarrow>
            buffer (append_block u b) = [u] \<and> totalSize (append_block u b) = estimateSize u)"
proof -
  obtain kept t' where ev: "evict (maxSize b) (estimateSize u) (buffer b) (totalSize b) = (kept, t')"
    by (cases "evict (maxSize b) (estimateSize u) (buffer b) (totalSize b)")
  have buf: "buffer (append_block u b) = kept @ [u]"
    and tot: "totalSize (append_block u b) = t' + estimateSize u"
    using ev by (simp_all add: append_block_def Let_def)
  have sum: "t' = sum_list (map estimateSize kept)"
    using evict_sum [OF ev] assms by (simp add: heldSize_def)
  have drop: "\<exists>k. buffer (append_block u b) = drop k (buffer b) @ [u]"
    using evict_drop [OF ev] buf by auto
  have small: "totalSize (append_block u b) \<le> maxSize b" if "estimateSize u \<le> maxSize b"
  proof (cases "kept = []")
    case True
    with sum tot that show ?thesis by simp
  next
    case False
    then show ?thesis using evict_fits [OF ev] tot by simp
  qed
  have big: "buffer (append_block u b) = [u] \<and> totalSize (append_block u b) = estimateSize u"
    if "maxSize b < estimateSize u"
  proof -
    have "kept = []" using evict_oversized [OF ev _ that] assms by (simp add: heldSize_def)
    with buf tot sum show ?thesis by simp
  qed
  from drop small big show ?thesis by blast
qed

text \<open>
  Claim C1, as stated: after every append the total estimated size is at most the cap,
  also when the appended unit alone is larger than the cap. It fails: a buffer of cap
  100 that receives one unit of one character holds 101 afterwards.
\<close>

theorem append_within_cap_counterexample:
  "\<not> totalSize (appendAll 100 [exBlock ''x'']) \<le> 100"
  by (simp add: appendAll_def append_block_def newOutputBuffer_def estimateSize_def exBlock_def
      createOutputBlock_def js_def)

text \<open>
  Claim C1, amended: in every sequence of appends on a buffer of cap \<open>cap\<close>, after each
  append of a unit \<open>u\<close> the running total is the sum of the estimated sizes of the units
  held; the units held are the previous ones without some of the oldest, followed by
  \<open>u\<close>; the total is at most the cap when the size of \<open>u\<close> is at most the cap; and when
  the size of \<open>u\<close> exceeds the cap the buffer is emptied for it and holds \<open>u\<close> alone, with
  a total equal to the size of \<open>u\<close>.
\<close>

theorem append_evicts_oldest_first:
  "totalSize (appendAll cap (us @ [u])) = heldSize (appendAll cap (us @ [u]))
   \<and> (\<exists>k. buffer (appendAll cap (us @ [u])) = drop k (buffer (appendAll cap us)) @ [u])
   \<and> (estimateSize u \<le> cap \<longrightarrow> totalSize (appendAll cap (us @ [u])) \<le> cap)
   \<and> (cap < estimateSize u \<longrightarrow>
        buffer (appendAll cap (us @ [u])) = [u]
        \<and> totalSize (appendAll cap (us @ [u])) = estimateSize u)"
  using append_step [OF appendAll_consistent, of u cap us]
    appendAll_consistent [of cap "us @ [u]"]
  by (simp add: appendAll_snoc appendAll_maxSize)

theorem append_evicts_oldest_first_witness:
  "estimateSize (exBlock ''cc'') \<le> 250
   \<and> buffer (appendAll 250 ([exBlock ''a'', exBlock ''b''] @ [exBlock ''cc'']))
       = [exBlock ''b'', exBlock ''cc'']
   \<and> totalSize (appendAll 250 ([exBlock ''a'', exBlock ''b''] @ [exBlock ''cc''])) = 203
   \<and> 250 < estimateSize (exBlock (replicate 151 CHR ''z''))
   \<and> buffer (appendAll 250 ([exBlock ''a'', exBlock ''b''] @ [exBlock (replicate 151 CHR ''z'')]))
       = [exBlock (replicate 151 CHR ''z'')]"
  using append_evicts_oldest_first [of 250 "[exBlock ''a'', exBlock ''b'']" "exBlock ''cc''"]
    append_evicts_oldest_first [of 250 "[exBlock ''a'', exBlock ''b'']"
      "exBlock (replicate 151 CHR ''z'')"]
  by (simp add: appendAll_def append_block_def newOutputBuffer_def estimateSize_def exBlock_def
      createOutputBlock_def js_def)

section \<open>Process exit\<close>

lemma append_block_buffer: "\<exists>k. buffer (append_block u b) = drop k (buffer b) @ [u]"
proof -
  obtain kept t' where ev: "evict (maxSize b) (estimateSize u) (buffer b) (totalSize b) = (kept, t')"
    by (cases "evict (maxSize b) (estimateSize u) (buffer b) (totalSize b)")
  then have "buffer (append_block u b) = kept @ [u]"
    by (simp add: append_block_def Let_def)
  with evict_drop [OF ev] show ?thesis by auto
qed

text \<open>
  Claim C4: an exit notification with code 0 leaves the session Idle and its buffer as
  it was; with any other code it leaves the session in Error and the buffer with exactly
  one new unit, of kind Error, appended after what is kept of the old units; the
  adapter reference is cleared in both cases.
\<close>

theorem handleExit_outcome:
  "adapter (handleExit code signal now s) = None
   \<and> (code = 0 \<longrightarrow>
        status (handleExit code signal now s) = IDLE
        \<and> outBuffer (handleExit code signal now s) = outBuffer s)
   \<and> (code \<noteq> 0 \<longrightarrow>
        status (handleExit code signal now s) = ERROR
        \<and> (\<exists>k e. buffer (outBuffer (handleExit code signal now s))
                    = drop k (buffer (outBuffer s)) @ [e]
                  \<and> type e = ERROR_OUTPUT
                  \<and> content e = js ''Process exited with code '' @ decimal_int code))"
proof -
  let ?e = "createOutputBlock ERROR_OUTPUT (js ''Process exited with code '' @ decimal_int code) now"
  have "\<exists>k. buffer (append_block ?e (outBuffer s)) = drop k (buffer (outBuffer s)) @ [?e]"
    by (rule append_block_buffer)
  moreover have "type ?e = ERROR_OUTPUT"
    and "content ?e = js ''Process exited with code '' @ decimal_int code"
    by (simp_all add: createOutputBlock_def)
  ultimately have "\<exists>k e. buffer (append_block ?e (outBuffer s)) = drop k (buffer (outBuffer s)) @ [e]
      \<and> type e = ERROR_OUTPUT \<and> content e = js ''Process exited with code '' @ decimal_int code"
    by blast
  then show ?thesis
    by (simp add: handleExit_def Let_def)
qed

theorem handleExit_outcome_witness:
  "status (handleExit 0 0 5 (run exSession (take 2 exConfirmThenExit))) = IDLE
   \<and> buffer (outBuffer (handleExit 0 0 5 (run exSession (take 2 exConfirmThenExit)))) = []
   \<and> (1::int) \<noteq> 0
   \<and> status (handleExit 1 0 5 (run exSession (take 2 exConfirmThenExit))) = ERROR
   \<and> map type (buffer (outBuffer (handleExit 1 0 5 (run exSession (take 2 exConfirmThenExit)))))
       = [ERROR_OUTPUT]
   \<and> adapter (run exSession (take 2 exConfirmThenExit)) \<noteq> None
   \<and> adapter (handleExit 1 0 5 (run exSession (take 2 exConfirmThenExit))) = None"
  using handleExit_outcome [of 0 0 5 "run exSession (take 2 exConfirmThenExit)"]
    handleExit_outcome [of 1 0 5 "run exSession (take 2 exConfirmThenExit)"]
  by (simp add: exConfirmThenExit_def exSession_def newSession_def start_def handleOutput_def
      handleExit_def exConfirm_def confirmBlock_def createBlock_def createOutputBlock_def
      newOutputBuffer_def append_block_def estimateSize_def Let_def)

section \<open>The pending confirmation and the status\<close>

lemma handleEvent_waiting:
  "(status s = WAITING_CONFIRM \<longrightarrow> pendingConfirm s \<noteq> None) \<Longrightarrow>
   status (handleEvent now s e) = WAITING_CONFIRM \<longrightarrow> pendingConfirm (handleEvent now s e) \<noteq> None"
  by (cases e)
     (auto simp: handleOutput_def handleExit_def handleIdle_def Let_def split: OutputType.splits)

lemma processInputQueue_waiting:
  "(status s = WAITING_CONFIRM \<longrightarrow> pendingConfirm s \<noteq> None) \<Longrightarrow>
   status (processInputQueue now s) = WAITING_CONFIRM \<longrightarrow>
   pendingConfirm (processInputQueue now s) \<noteq> None"
  by (auto simp: processInputQueue_def Let_def split: prod.splits)

lemma step_waiting:
  assumes "status s = WAITING_CONFIRM \<longrightarrow> pendingConfirm s \<noteq> None"
  shows "status (step now s op) = WAITING_CONFIRM \<longrightarrow> pendingConfirm (step now s op) \<noteq> None"
proof (cases op)
  case (Start cliTool exe launch)
  with assms show ?thesis
    by (auto simp: start_def Let_def split: Launch.splits)
next
  case (SendInput input)
  with assms processInputQueue_waiting [of "s\<lparr>inputQueue := inputQueue s @ [input]\<rparr>" now]
  show ?thesis by (auto simp: sendInput_def)
next
  case (SendRawInput data)
  with assms show ?thesis
    by (auto simp: sendRawInput_def split: option.splits)
next
  case (SendConfirmResponse response)
  with assms show ?thesis
    by (auto simp: sendConfirmResponse_def Let_def split: option.splits)
next
  case GetBufferedOutput
  with assms show ?thesis
    by (auto simp: getBufferedOutput_def fetchAndClear_def)
next
  case Close
  with assms show ?thesis by (simp add: close_def)
next
  case (Event e)
  with assms handleEvent_waiting [of s now e] show ?thesis by simp
qed

lemma run_waiting:
  "(status s = WAITING_CONFIRM \<longrightarrow> pendingConfirm s \<noteq> None) \<Longrightarrow>
   status (run s ops) = WAITING_CONFIRM \<longrightarrow> pendingConfirm (run s ops) \<noteq> None"
proof (induction ops arbitrary: s)
  case Nil
  then show ?case by simp
next
  case (Cons a ops)
  obtain now op where a: "a = (now, op)" by (cases a)
  from Cons.prems have "status (step now s op) = WAITING_CONFIRM \<longrightarrow>
      pendingConfirm (step now s op) \<noteq> None"
    by (rule step_waiting)
  then show ?case using Cons.IH a by simp
qed

text \<open>
  Claim C2, as stated: in every reachable state a PendingConfirm is held if and only if
  the status is WaitingConfirm, and it is cleared when the process exits. It fails: after
  a start, a Confirm unit and an exit with code 0 the session is Idle and still holds
  the PendingConfirm.
\<close>

theorem pending_iff_waiting_counterexample:
  "pendingConfirm (run exSession exConfirmThenExit) \<noteq> None
   \<and> status (run exSession exConfirmThenExit) = IDLE"
  by (simp add: exConfirmThenExit_def exSession_def newSession_def start_def handleOutput_def
      handleExit_def exConfirm_def confirmBlock_def createBlock_def Let_def)

text \<open>
  Claim C2, amended: in every state a session reaches from its construction by any
  sequence of operations and adapter events, a status of WaitingConfirm implies that a
  PendingConfirm is held; and a confirm response that is sent (the call returns
  normally) leaves no PendingConfirm, with the status Processing when one was held.
\<close>

theorem waiting_implies_pending:
  "(status (run (newSession n dir cap t0) ops) = WAITING_CONFIRM \<longrightarrow>
      pendingConfirm (run (newSession n dir cap t0) ops) \<noteq> None)
   \<and> (sendConfirmResponse response now s = (s', Inr ()) \<longrightarrow>
        pendingConfirm s' = None \<and> (pendingConfirm s \<noteq> None \<longrightarrow> status s' = PROCESSING))"
proof -
  have "status (newSession n dir cap t0) = WAITING_CONFIRM \<longrightarrow>
      pendingConfirm (newSession n dir cap t0) \<noteq> None"
    by (simp add: newSession_def)
  then have "status (run (newSession n dir cap t0) ops) = WAITING_CONFIRM \<longrightarrow>
      pendingConfirm (run (newSession n dir cap t0) ops) \<noteq> None"
    by (rule run_waiting)
  moreover have "sendConfirmResponse response now s = (s', Inr ()) \<longrightarrow>
      pendingConfirm s' = None \<and> (pendingConfirm s \<noteq> None \<longrightarrow> status s' = PROCESSING)"
    by (auto simp: sendConfirmResponse_def Let_def split: option.splits if_splits)
  ultimately show ?thesis by blast
qed

theorem waiting_implies_pending_witness:
  "status (run (newSession (js ''s1'') (js ''/work'') 1000 0) (take 2 exConfirmThenExit))
     = WAITING_CONFIRM
   \<and> pendingConfirm (run (newSession (js ''s1'') (js ''/work'') 1000 0) (take 2 exConfirmThenExit))
     \<noteq> None
   \<and> snd (sendConfirmResponse (js ''Y'') 4 (run exSession (take 2 exConfirmThenExit))) = Inr ()
   \<and> pendingConfirm (fst (sendConfirmResponse (js ''Y'') 4 (run exSession (take 2 exConfirmThenExit))))
     = None
   \<and> status (fst (sendConfirmResponse (js ''Y'') 4 (run exSession (take 2 exConfirmThenExit))))
     = PROCESSING"
  using waiting_implies_pending [of "js ''s1''" "js ''/work''" 1000 0 "take 2 exConfirmThenExit"
      "js ''Y''" 4 "run exSession (take 2 exConfirmThenExit)"
      "fst (sendConfirmResponse (js ''Y'') 4 (run exSession (take 2 exConfirmThenExit)))"]
  by (simp add: exConfirmThenExit_def exSession_def newSession_def start_def handleOutput_def
      sendConfirmResponse_def exConfirm_def confirmBlock_def createBlock_def Let_def)

section \<open>The registry\<close>

lemma map_of_mapSet: "map_of (mapSet k v m) = (map_of m)(k \<mapsto> v)"
  by (induction m) (auto simp: fun_eq_iff)

lemma map_of_mapDelete: "map_of (mapDelete k m) = (map_of m)(k := None)"
  by (induction m) (auto simp: mapDelete_def fun_eq_iff)

lemma setDelete_set: "set (setDelete n xs) = set xs - {n}"
  by (auto simp: setDelete_def)

lemma unbindAll_sessions:
  "map_of (fst (unbindAll n cs act)) c = map_option (setDelete n) (map_of cs c)"
proof (induction cs arbitrary: act)
  case Nil
  then show ?case by simp
next
  case (Cons entry cs)
  obtain chatId sessionSet where entry: "entry = (chatId, sessionSet)" by (cases entry)
  define act' where "act' = (if map_of act chatId = Some n
      then (case setDelete n sessionSet of r # _ \<Rightarrow> mapSet chatId r act | [] \<Rightarrow> mapDelete chatId act)
      else act)"
  have "fst (unbindAll n (entry # cs) act)
      = (chatId, setDelete n sessionSet) # fst (unbindAll n cs act')"
    by (simp add: entry act'_def Let_def split: prod.splits)
  then show ?case using Cons.IH [of act'] entry by simp
qed

lemma promoted_not_deleted: "promoted (setDelete n xs) \<noteq> Some n"
proof
  assume "promoted (setDelete n xs) = Some n"
  then have "n \<in> set (setDelete n xs)"
    by (auto simp: promoted_def split: list.splits)
  then show False by (simp add: setDelete_set)
qed

lemma unbindAll_active:
  "map_of (snd (unbindAll n cs act)) c =
     (case map_of cs c of
        Some sessionSet \<Rightarrow>
          if map_of act c = Some n then promoted (setDelete n sessionSet) else map_of act c
      | None \<Rightarrow> map_of act c)"
proof (induction cs arbitrary: act)
  case Nil
  then show ?case by simp
next
  case (Cons entry cs)
  obtain chatId sessionSet where entry: "entry = (chatId, sessionSet)" by (cases entry)
  define act' where "act' = (if map_of act chatId = Some n
      then (case setDelete n sessionSet of r # _ \<Rightarrow> mapSet chatId r act | [] \<Rightarrow> mapDelete chatId act)
      else act)"
  have unfold: "snd (unbindAll n (entry # cs) act) = snd (unbindAll n cs act')"
    by (simp add: entry act'_def Let_def split: prod.splits)
  have other: "map_of act' c = map_of act c" if "c \<noteq> chatId"
    using that by (simp add: act'_def map_of_mapSet map_of_mapDelete split: list.splits)
  have same: "map_of act' chatId =
      (if map_of act chatId = Some n then promoted (setDelete n sessionSet) else map_of act chatId)"
    by (simp add: act'_def promoted_def map_of_mapSet map_of_mapDelete split: list.splits)
  show ?case
  proof (cases "c = chatId")
    case True
    have "map_of act' chatId \<noteq> Some n"
      using same promoted_not_deleted [of n sessionSet] by (simp split: if_splits)
    then have "map_of (snd (unbindAll n cs act')) chatId = map_of act' chatId"
      using Cons.IH [of act'] True by (simp split: option.splits)
    with same True unfold entry show ?thesis by simp
  next
    case False
    then show ?thesis
      using Cons.IH [of act'] other unfold entry by (simp split: option.splits)
  qed
qed


lemma dom_addToChat: "dom (map_of (addToChat chatId n cs)) = insert chatId (dom (map_of cs))"
  by (auto simp: addToChat_def map_of_mapSet split: option.splits if_splits)

lemma createSession_closed:
  "bindingsClosed m \<Longrightarrow> bindingsClosed (fst (createSession n dir chatId cliTool now launch m))"
  by (auto simp: createSession_def bindingsClosed_def Let_def map_of_mapSet dom_addToChat
      split: prod.splits if_splits)

lemma setChatActiveSession_closed:
  "bindingsClosed m \<Longrightarrow> bindingsClosed (fst (setChatActiveSession chatId n m))"
  by (auto simp: setChatActiveSession_def bindingsClosed_def map_of_mapSet
      split: option.splits if_splits)

lemma addSessionToChat_closed:
  "bindingsClosed m \<Longrightarrow> bindingsClosed (fst (addSessionToChat n chatId m))"
  by (auto simp: addSessionToChat_def bindingsClosed_def dom_addToChat)

lemma restartSession_closed:
  "bindingsClosed m \<Longrightarrow> bindingsClosed (fst (restartSession n now launch m))"
  by (auto simp: restartSession_def bindingsClosed_def Let_def split: option.splits prod.splits)

lemma closeSession_bindings:
  assumes "closeSession n m = (m', Inr u)"
  shows "chatSessions m' = fst (unbindAll n (chatSessions m) (chatActiveSession m))"
    and "chatActiveSession m' = snd (unbindAll n (chatSessions m) (chatActiveSession m))"
    and "sessions m' = mapDelete n (sessions m)"
  using assms by (auto simp: closeSession_def Let_def split: option.splits prod.splits)

lemma closeSession_failed: "closeSession n m = (m', Inl e) \<Longrightarrow> m' = m"
  by (auto simp: closeSession_def Let_def split: option.splits prod.splits)

lemma dom_unbindAll_sessions: "dom (map_of (fst (unbindAll n cs act))) = dom (map_of cs)"
  by (auto simp: dom_def unbindAll_sessions)

lemma dom_unbindAll_active:
  "dom (map_of act) \<subseteq> dom (map_of cs) \<Longrightarrow>
   dom (map_of (snd (unbindAll n cs act))) \<subseteq> dom (map_of cs)"
  by (auto simp: unbindAll_active split: option.splits if_splits) blast

lemma closeSession_closed:
  assumes "bindingsClosed m"
  shows "bindingsClosed (fst (closeSession n m))"
proof (cases "closeSession n m")
  case (Pair m' r)
  show ?thesis
  proof (cases r)
    case (Inl e)
    with Pair assms closeSession_failed show ?thesis by fastforce
  next
    case (Inr u)
    with Pair have "chatSessions m' = fst (unbindAll n (chatSessions m) (chatActiveSession m))"
      and "chatActiveSession m' = snd (unbindAll n (chatSessions m) (chatActiveSession m))"
      by (simp_all add: closeSession_bindings)
    then show ?thesis
      using assms Pair dom_unbindAll_active [of "chatActiveSession m" "chatSessions m" n]
      by (simp add: bindingsClosed_def dom_unbindAll_sessions)
  qed
qed

lemma closeEach_closed: "bindingsClosed m \<Longrightarrow> bindingsClosed (fst (closeEach ns m))"
proof (induction ns arbitrary: m)
  case Nil
  then show ?case by simp
next
  case (Cons n ns)
  obtain m' r where c: "closeSession n m = (m', r)" by (cases "closeSession n m")
  have "bindingsClosed m'" using closeSession_closed [OF Cons.prems, of n] c by simp
  then show ?case using Cons.IH [of m'] c by (cases r) simp_all
qed

lemma closeChatSessions_closed:
  assumes "bindingsClosed m"
  shows "bindingsClosed (fst (closeChatSessions chatId m))"
proof (cases "map_of (chatSessions m) chatId")
  case None
  with assms show ?thesis by (simp add: closeChatSessions_def)
next
  case (Some sessionSet)
  obtain m' r where c: "closeEach sessionSet m = (m', r)" by (cases "closeEach sessionSet m")
  have m': "bindingsClosed m'" using closeEach_closed [OF assms, of sessionSet] c by simp
  show ?thesis
  proof (cases r)
    case (Inl e)
    with Some c m' show ?thesis by (simp add: closeChatSessions_def)
  next
    case (Inr u)
    with Some c m' show ?thesis
      by (auto simp: closeChatSessions_def bindingsClosed_def map_of_mapDelete)
  qed
qed

lemma mstep_closed: "bindingsClosed m \<Longrightarrow> bindingsClosed (mstep now m op)"
proof (cases op)
  case (OnSession n sop)
  assume "bindingsClosed m"
  with OnSession show ?thesis by (auto simp: bindingsClosed_def split: option.splits)
qed (simp_all add: createSession_closed setChatActiveSession_closed addSessionToChat_closed
      restartSession_closed closeSession_closed closeChatSessions_closed,
     simp_all add: bindingsClosed_def closeAll_def updateConfig_def)

lemma mrun_closed: "bindingsClosed m \<Longrightarrow> bindingsClosed (mrun m ops)"
proof (induction ops arbitrary: m)
  case Nil
  then show ?case by simp
next
  case (Cons a ops)
  obtain now op where "a = (now, op)" by (cases a)
  then show ?case using Cons.IH [OF mstep_closed [OF Cons.prems]] by simp
qed

lemma reachable_closed: "bindingsClosed (mrun (createSessionManager cfg) ops)"
  by (rule mrun_closed) (simp add: bindingsClosed_def createSessionManager_def)

text \<open>The definitions a run of the example registries unfolds.\<close>

lemmas ex_defs = registry_def exTwo_def exCrashed_def exFailedStart_def exEarlyExit_def exConfig_def
  createSessionManager_def createSession_def newSession_def newOutputBuffer_def start_def
  mapHas_def addToChat_def orElse_def executableFor_def Let_def js_def
  closeSession_def mapDelete_def setDelete_def findAnyActiveSession_def
  restartSession_def handleExit_def createOutputBlock_def append_block_def estimateSize_def
  boundTo_def activeOf_def getSession_def setAdd_def

text \<open>
  Claim C9: in a registry reached from its creation by any sequence of operations, when
  \<^verbatim>\<open>closeSession(n)\<close> succeeds and \<open>n\<close> was the active session of chat \<open>c\<close>, the sessions
  bound to \<open>c\<close> afterwards are the previous ones without \<open>n\<close>; if any remain, one of
  them is the active session of \<open>c\<close>; if none remain, \<open>c\<close> has no active session; and
  \<open>n\<close> is bound to no chat and no longer registered.
\<close>

theorem closeSession_promotes:
  assumes "m = mrun (createSessionManager cfg) ops"
    and "closeSession n m = (m', Inr ())"
    and "activeOf m c = Some n"
  shows "boundTo m' c = setDelete n (boundTo m c)
       \<and> (boundTo m' c \<noteq> [] \<longrightarrow> (\<exists>r \<in> set (boundTo m' c). activeOf m' c = Some r))
       \<and> (boundTo m' c = [] \<longrightarrow> activeOf m' c = None)
       \<and> (\<forall>c'. n \<notin> set (boundTo m' c'))
       \<and> getSession n m' = None"
proof -
  have cs: "chatSessions m' = fst (unbindAll n (chatSessions m) (chatActiveSession m))"
    and act: "chatActiveSession m' = snd (unbindAll n (chatSessions m) (chatActiveSession m))"
    and ss: "sessions m' = mapDelete n (sessions m)"
    using assms(2) by (simp_all add: closeSession_bindings)
  have "bindingsClosed m" using assms(1) reachable_closed by simp
  with assms(3) obtain sessionSet where set: "map_of (chatSessions m) c = Some sessionSet"
    by (auto simp: bindingsClosed_def activeOf_def dom_def)
  have bound: "boundTo m' c' = setDelete n (boundTo m c')" for c'
    by (simp add: boundTo_def cs unbindAll_sessions setDelete_def split: option.splits)
  have active: "activeOf m' c = promoted (boundTo m' c)"
    using assms(3) set bound [of c]
    by (simp add: activeOf_def act unbindAll_active boundTo_def)
  have "\<exists>r \<in> set (boundTo m' c). activeOf m' c = Some r" if "boundTo m' c \<noteq> []"
    using that active by (cases "boundTo m' c") (simp_all add: promoted_def)
  moreover have "activeOf m' c = None" if "boundTo m' c = []"
    using that active by (simp add: promoted_def)
  moreover have "\<forall>c'. n \<notin> set (boundTo m' c')"
    by (simp add: bound setDelete_set)
  moreover have "getSession n m' = None"
    by (simp add: getSession_def ss map_of_mapDelete)
  ultimately show ?thesis using bound by blast
qed

theorem closeSession_promotes_witness:
  "snd (closeSession (js ''b'') (registry exTwo)) = Inr ()
   \<and> activeOf (registry exTwo) (js ''c1'') = Some (js ''b'')
   \<and> boundTo (fst (closeSession (js ''b'') (registry exTwo))) (js ''c1'') = [js ''a'']
   \<and> activeOf (fst (closeSession (js ''b'') (registry exTwo))) (js ''c1'') = Some (js ''a'')
   \<and> snd (closeSession (js ''a'') (registry (take 1 exTwo))) = Inr ()
   \<and> activeOf (registry (take 1 exTwo)) (js ''c1'') = Some (js ''a'')
   \<and> boundTo (fst (closeSession (js ''a'') (registry (take 1 exTwo)))) (js ''c1'') = []
   \<and> activeOf (fst (closeSession (js ''a'') (registry (take 1 exTwo)))) (js ''c1'') = None"
  using closeSession_promotes [of "registry exTwo" exConfig exTwo "js ''b''"
      "fst (closeSession (js ''b'') (registry exTwo))" "js ''c1''"]
    closeSession_promotes [of "registry (take 1 exTwo)" exConfig "take 1 exTwo" "js ''a''"
      "fst (closeSession (js ''a'') (registry (take 1 exTwo)))" "js ''c1''"]
  by (simp add: ex_defs)

section \<open>Creating and restarting sessions\<close>

text \<open>
  Claim C8: when a session named \<open>n\<close> is registered and the number of sessions is below
  the configured maximum, \<^verbatim>\<open>createSession(n, ...)\<close> fails with AlreadyExists and the
  registry (the sessions with their states, the sets of every chat and the active session
  of every chat) is exactly as before.
\<close>

theorem createSession_duplicate_name:
  assumes "mapHas n (sessions m)"
    and "int (length (sessions m)) < maxSessions (config m)"
  shows "createSession n dir chatId cliTool now launch m = (m, Inl AlreadyExists)"
  using assms by (simp add: createSession_def)

theorem createSession_duplicate_name_witness:
  "mapHas (js ''a'') (sessions (registry (take 1 exTwo)))
   \<and> int (length (sessions (registry (take 1 exTwo)))) < maxSessions (config (registry (take 1 exTwo)))
   \<and> createSession (js ''a'') (js ''/other'') (js ''c2'') None 9 (AdapterStart [] True)
        (registry (take 1 exTwo)) = (registry (take 1 exTwo), Inl AlreadyExists)"
  using createSession_duplicate_name [of "js ''a''" "registry (take 1 exTwo)" "js ''/other''"
      "js ''c2''" None 9 "AdapterStart [] True"]
  by (simp add: ex_defs)

text \<open>
  Claim C10: when the registry holds the configured maximum number of sessions (or
  more), \<^verbatim>\<open>createSession\<close> fails with CapacityExceeded whatever the name, also when the
  name is already registered, and the registry is exactly as before.
\<close>

theorem createSession_capacity_first:
  assumes "int (length (sessions m)) \<ge> maxSessions (config m)"
  shows "createSession n dir chatId cliTool now launch m = (m, Inl CapacityExceeded)"
  using assms by (simp add: createSession_def)

theorem createSession_capacity_first_witness:
  "int (length (sessions (registry exTwo))) \<ge> maxSessions (config (registry exTwo))
   \<and> mapHas (js ''a'') (sessions (registry exTwo))
   \<and> createSession (js ''a'') (js ''/other'') (js ''c2'') None 9 (AdapterStart [] True)
        (registry exTwo) = (registry exTwo, Inl CapacityExceeded)"
  using createSession_capacity_first [of "registry exTwo" "js ''a''" "js ''/other''"
      "js ''c2''" None 9 "AdapterStart [] True"]
  by (simp add: ex_defs)

text \<open>
  Claim C3, as stated: whenever the session's status is Error, \<^verbatim>\<open>restartSession\<close>
  succeeds. It fails: a session that crashed with exit code 1 is in Error and holds no
  adapter; when the restarted process exits during the warm-up again, \<^verbatim>\<open>restartSession\<close>
  fails with the startup failure and the session stays in Error.
\<close>

theorem restart_succeeds_counterexample:
  "map_option status (getSession (js ''a'') (registry exCrashed)) = Some ERROR
   \<and> snd (restartSession (js ''a'') 9 exEarlyExit (registry exCrashed)) = Inl StartupFailure
   \<and> map_option status
        (getSession (js ''a'') (fst (restartSession (js ''a'') 9 exEarlyExit (registry exCrashed))))
       = Some ERROR"
  by (simp add: ex_defs map_of_mapSet)

text \<open>
  A session whose adapter failed to start without an exit event keeps the adapter, and
  restarting it is refused by the guard of \<^verbatim>\<open>start\<close> whatever the new launch would do.
\<close>

lemma restart_after_failed_start:
  "map_option status (getSession (js ''a'') (registry exFailedStart)) = Some ERROR
   \<and> snd (restartSession (js ''a'') 9 (AdapterStart [] True) (registry exFailedStart))
       = Inl SessionAlreadyStarted"
  by (simp add: ex_defs)

text \<open>
  Claim C3, amended: for a registered session, \<^verbatim>\<open>restartSession\<close> fails with
  RestartRejected and leaves the registry as it was whenever the status is not Error.
  When the status is Error it calls the session's \<^verbatim>\<open>start\<close> again, the registry differs
  at most by that session, and the result is the result of that call; for a session
  that holds no adapter the call succeeds exactly when the launch completes, the session
  is then Idle, and it stays in Error otherwise.
\<close>

theorem restartSession_outcome:
  assumes "getSession n m = Some s"
  shows "(status s \<noteq> ERROR \<longrightarrow> restartSession n now launch m = (m, Inl RestartRejected))
       \<and> (status s = ERROR \<longrightarrow>
            (\<exists>cliTool exe.
               restartSession n now launch m
               = (m\<lparr>sessions := mapSet n (fst (start cliTool exe now launch s)) (sessions m)\<rparr>,
                  snd (start cliTool exe now launch s))))
       \<and> (status s = ERROR \<and> adapter s = None \<longrightarrow>
            (snd (restartSession n now launch m) = Inr ()
               \<longleftrightarrow> (\<exists>evs. launch = AdapterStart evs True))
          \<and> (\<exists>s'. getSession n (fst (restartSession n now launch m)) = Some s'
                 \<and> status s' = (if snd (restartSession n now launch m) = Inr () then IDLE
                                else ERROR)))"
proof -
  let ?tool = "orElse (cliDefault (config m)) (js ''claude'')"
  let ?exe = "executableFor (config m) ?tool"
  let ?st = "start ?tool ?exe now launch s"
  have rejected: "restartSession n now launch m = (m, Inl RestartRejected)" if "status s \<noteq> ERROR"
    using assms that by (simp add: restartSession_def getSession_def)
  have restarted: "restartSession n now launch m
      = (m\<lparr>sessions := mapSet n (fst ?st) (sessions m)\<rparr>, snd ?st)" if "status s = ERROR"
    using assms that by (simp add: restartSession_def getSession_def Let_def split: prod.splits)
  have ok: "snd ?st = Inr () \<longleftrightarrow> (\<exists>evs. launch = AdapterStart evs True)" if "adapter s = None"
    using that by (cases launch) (auto simp: start_def Let_def)
  have st: "status (fst ?st) = (if snd ?st = Inr () then IDLE else ERROR)" if "status s = ERROR"
    using that by (cases launch) (auto simp: start_def Let_def)
  have after: "\<exists>s'. getSession n (fst (restartSession n now launch m)) = Some s'
      \<and> status s' = (if snd (restartSession n now launch m) = Inr () then IDLE else ERROR)"
    if "status s = ERROR"
    using restarted [OF that] st [OF that] by (simp add: getSession_def map_of_mapSet)
  have called: "\<exists>cliTool exe.
      restartSession n now launch m
      = (m\<lparr>sessions := mapSet n (fst (start cliTool exe now launch s)) (sessions m)\<rparr>,
         snd (start cliTool exe now launch s))" if "status s = ERROR"
    using restarted [OF that] by blast
  have success: "snd (restartSession n now launch m) = Inr ()
      \<longleftrightarrow> (\<exists>evs. launch = AdapterStart evs True)" if "status s = ERROR" and "adapter s = None"
    using restarted [OF that(1)] ok [OF that(2)] by simp
  show ?thesis
  proof (intro conjI impI)
    assume "status s \<noteq> ERROR"
    then show "restartSession n now launch m = (m, Inl RestartRejected)" by (rule rejected)
  next
    assume "status s = ERROR"
    then show "\<exists>cliTool exe.
      restartSession n now launch m
      = (m\<lparr>sessions := mapSet n (fst (start cliTool exe now launch s)) (sessions m)\<rparr>,
         snd (start cliTool exe now launch s))" by (rule called)
  next
    assume "status s = ERROR \<and> adapter s = None"
    then have "status s = ERROR" and "adapter s = None" by simp_all
    then show "snd (restartSession n now launch m) = Inr ()
      \<longleftrightarrow> (\<exists>evs. launch = AdapterStart evs True)" by (rule success)
  next
    assume "status s = ERROR \<and> adapter s = None"
    then have "status s = ERROR" by simp
    then show "\<exists>s'. getSession n (fst (restartSession n now launch m)) = Some s'
      \<and> status s' = (if snd (restartSession n now launch m) = Inr () then IDLE else ERROR)"
      by (rule after)
  qed
qed

theorem restartSession_outcome_witness:
  "map_option status (getSession (js ''a'') (registry (take 1 exCrashed))) = Some IDLE
   \<and> restartSession (js ''a'') 9 (AdapterStart [] True) (registry (take 1 exCrashed))
       = (registry (take 1 exCrashed), Inl RestartRejected)
   \<and> map_option status (getSession (js ''a'') (registry exCrashed)) = Some ERROR
   \<and> map_option adapter (getSession (js ''a'') (registry exCrashed)) = Some None
   \<and> snd (restartSession (js ''a'') 9 (AdapterStart [] True) (registry exCrashed)) = Inr ()
   \<and> map_option status (getSession (js ''a'')
        (fst (restartSession (js ''a'') 9 (AdapterStart [] True) (registry exCrashed)))) = Some IDLE"
  using restartSession_outcome [of "js ''a''" "registry (take 1 exCrashed)"
      "the (getSession (js ''a'') (registry (take 1 exCrashed)))" 9 "AdapterStart [] True"]
    restartSession_outcome [of "js ''a''" "registry exCrashed"
      "the (getSession (js ''a'') (registry exCrashed))" 9 "AdapterStart [] True"]
  by (simp add: ex_defs)

section \<open>The classifier\<close>

lemmas parse_defs = parse_def detectInteractiveSelect_def detectConfirmPrompt_def detectError_def
  collect_def scanLine_def pushOption_def stripAnsi_def cursorPosition_def csiCount_def
  csiSequence_def oscBel_def oscSt_def charsetSelect_def escLetter_def linkSequence_def
  sgrSequence_def isControl_def lit_def one_def many_def many1_def inputHint_def
  hasConfirmHint_def pressToSelect_def hasConfirmKeywords_def testAnyCI_def contains_def
  lower_def trim_def isWhiteSpace_def isDigit_def isLetter_def isLineTerminator_def
  isMarker_def arrowPattern_def numberedPattern_def numberDot_def restCapture_def
  indented_def rangeAt_def parseInt_def repeat_def confirmBlock_def createBlock_def js_def
  Let_def

text \<open>
  Claim C5: the chunk \<^verbatim>\<open>[Y/N]\<close> is classified as exactly one unit, a Confirm unit with
  the options Y and N, and the chunk \<^verbatim>\<open>[2-4]\<close> as exactly one Confirm unit with the
  options 2, 3 and 4 in this order; no Normal or Error unit comes with them.
\<close>

theorem parse_bracketed:
  "parse (js ''[Y/N]'') now
     = [confirmBlock (js ''[Y/N]'') now [js ''Y'', js ''N''] (js ''confirm_'' @ decimal now)]
   \<and> map type (parse (js ''[Y/N]'') now) = [CONFIRM]
   \<and> map confirmOptions (parse (js ''[Y/N]'') now) = [Some [js ''Y'', js ''N'']]
   \<and> parse (js ''[2-4]'') now
     = [confirmBlock (js ''[2-4]'') now [js ''2'', js ''3'', js ''4'']
          (js ''confirm_'' @ decimal now)]
   \<and> map type (parse (js ''[2-4]'') now) = [CONFIRM]
   \<and> map confirmOptions (parse (js ''[2-4]'') now) = [Some [js ''2'', js ''3'', js ''4'']]"
  by (simp add: parse_defs decimal.simps)

theorem parse_bracketed_witness:
  "map confirmOptions (parse (js ''[Y/N]'') 7) = [Some [[89], [78]]]
   \<and> map confirmOptions (parse (js ''[2-4]'') 7) = [Some [[50], [51], [52]]]
   \<and> map confirmId (parse (js ''[2-4]'') 7) = [Some (js ''confirm_7'')]"
  using parse_bracketed [of 7]
  by (simp add: confirmBlock_def createBlock_def js_def decimal.simps)

subsection \<open>Interactive selections\<close>

lemma detectConfirmPrompt_ident:
  "detectConfirmPrompt data now = Some (opts, ident) \<Longrightarrow> ident = js ''confirm_'' @ decimal now"
  by (auto simp: detectConfirmPrompt_def Let_def split: if_splits option.splits prod.splits)

lemma confirm_not_interactive: "\<not> prefix (js ''interactive_'') (js ''confirm_'' @ rest)"
  by (simp add: js_def)

lemma parse_without_selection:
  assumes "detectInteractiveSelect data now = None"
  shows "\<forall>b \<in> set (parse data now). \<not> isInteractive b"
proof (cases "detectConfirmPrompt data now")
  case None
  with assms show ?thesis
    by (simp add: parse_def isInteractive_def createBlock_def Let_def)
next
  case (Some r)
  obtain opts ident where r: "r = (opts, ident)" by (cases r)
  with Some have "ident = js ''confirm_'' @ decimal now"
    by (simp add: detectConfirmPrompt_ident)
  with assms Some r confirm_not_interactive [of "decimal now"] show ?thesis
    by (simp add: parse_def isInteractive_def confirmBlock_def createBlock_def)
qed

lemma parse_with_selection:
  assumes "detectInteractiveSelect data now = Some sel"
  shows "parse data now
         = [confirmBlock (formatInteractiveSelect sel) now (options sel) (selId sel)]"
    and "options sel = scanOptions (collect data)"
    and "length (scanOptions (collect data)) \<ge> 2"
    and "hasConfirmHint (stripAnsi data) \<or> hasConfirmKeywords (scanOptions (collect data))"
    and "\<not> inputHint (stripAnsi data)"
  using assms by (auto simp: parse_def detectInteractiveSelect_def Let_def split: if_splits)

lemma inputHint_no_selection:
  "inputHint (stripAnsi data) \<Longrightarrow> detectInteractiveSelect data now = None"
  by (simp add: detectInteractiveSelect_def)

subsection \<open>The selection example\<close>

lemma replaceAll_no_escape:
  assumes "\<And>c cs. c \<noteq> 27 \<Longrightarrow> f (c # cs) = None"
  shows "27 \<notin> set s \<Longrightarrow> replaceAll f s = s"
  by (induction s) (simp_all add: assms)

lemma cursorToText_no_escape: "27 \<notin> set s \<Longrightarrow> cursorToText cur s = s"
  by (induction s) (simp_all add: cursorPosition_def lit_def)

lemma stripAnsi_plain:
  assumes "\<forall>c \<in> set s. \<not> isControl c"
  shows "stripAnsi s = s"
proof -
  have esc: "27 \<notin> set s" using assms by (auto simp: isControl_def)
  have a: "replaceAll (csiCount final c) s = s" for final c
    using esc by (rule replaceAll_no_escape [rotated]) (simp add: csiCount_def lit_def)
  have b: "replaceAll csiSequence s = s" "replaceAll oscBel s = s" "replaceAll oscSt s = s"
    "replaceAll charsetSelect s = s" "replaceAll escLetter s = s"
    "replaceAll linkSequence s = s" "replaceAll sgrSequence s = s"
    using esc
    by (rule replaceAll_no_escape [rotated];
        simp add: csiSequence_def oscBel_def oscSt_def charsetSelect_def escLetter_def
          linkSequence_def sgrSequence_def lit_def)+
  have c: "filter (\<lambda>c. \<not> isControl c) s = s" using assms by (simp add: filter_id_conv)
  show ?thesis
    by (simp add: stripAnsi_def Let_def cursorToText_no_escape [OF esc] a b c)
qed

lemma splitLines_single: "10 \<notin> set a \<Longrightarrow> splitLines a = [a]"
  by (induction a) simp_all

lemma splitLines_append: "10 \<notin> set a \<Longrightarrow> splitLines (a @ 10 # b) = a # splitLines b"
  by (induction a) simp_all

lemma scanLine_prompt:
  "promptLine p \<Longrightarrow> scanLine hint prev p scan0 = scan0"
  by (simp add: scanLine_def promptLine_def scan0_def Let_def)

lemma scanLine_yes:
  "scanLine hint prev yesLine scan0
   = \<lparr>scanOptions = [js ''Yes, proceed''], scanSelected = 0, promptText = findPrompt prev,
      foundInteractive = True, foundArrow = True\<rparr>"
  by (simp add: scanLine_def pushOption_def scan0_def yesLine_def trim_def arrowPattern_def
      numberDot_def restCapture_def one_def many1_def lit_def isMarker_def isWhiteSpace_def
      isLineTerminator_def isDigit_def js_def Let_def)

lemma scanLine_no:
  "foundArrow st \<Longrightarrow> scanLine hint prev noLine st = pushOption (js ''No, abort'') st"
  by (simp add: scanLine_def noLine_def trim_def arrowPattern_def numberedPattern_def
      restCapture_def one_def many1_def isMarker_def isWhiteSpace_def indented_def
      isLineTerminator_def isDigit_def testAnyCI_def contains_def lower_def js_def Let_def)

lemma scanLine_hint:
  "foundArrow st \<Longrightarrow> trailingLine h \<Longrightarrow> scanLine hint prev h st = st"
  by (auto simp: scanLine_def trailingLine_def Let_def)

lemma findPrompt_prompt: "promptLine p \<Longrightarrow> findPrompt [p] = trim p"
  by (simp add: promptLine_def Let_def)

lemma yes_no_keywords: "hasConfirmKeywords [js ''Yes, proceed'', js ''No, abort'']"
  by (simp add: hasConfirmKeywords_def testAnyCI_def contains_def lower_def js_def)

lemma yesNoChunk_plain:
  assumes "plainLine p" and "plainLine h"
  shows "stripAnsi (yesNoChunk p h) = yesNoChunk p h"
    and "splitLines (yesNoChunk p h) = [p, yesLine, noLine, h]"
proof -
  have "\<forall>c \<in> set (yesNoChunk p h). \<not> isControl c"
    using assms
    by (auto simp: yesNoChunk_def plainLine_def yesLine_def noLine_def isControl_def js_def)
  then show "stripAnsi (yesNoChunk p h) = yesNoChunk p h" by (rule stripAnsi_plain)
  have p: "10 \<notin> set p" and h: "10 \<notin> set h" using assms by (auto simp: plainLine_def)
  have y: "10 \<notin> set yesLine" and n: "10 \<notin> set noLine"
    by (simp_all add: yesLine_def noLine_def js_def)
  show "splitLines (yesNoChunk p h) = [p, yesLine, noLine, h]"
    using splitLines_append [OF p] splitLines_append [OF y] splitLines_append [OF n]
      splitLines_single [OF h]
    by (simp add: yesNoChunk_def)
qed

lemma collect_yesNoChunk:
  assumes "plainLine p" and "plainLine h" and "promptLine p" and "trailingLine h"
  shows "collect (yesNoChunk p h)
         = \<lparr>scanOptions = [js ''Yes, proceed'', js ''No, abort''], scanSelected = 0,
            promptText = trim p, foundInteractive = True, foundArrow = True\<rparr>"
proof -
  let ?hint = "hasConfirmHint (yesNoChunk p h)"
  have "collect (yesNoChunk p h) = scanLines ?hint [] [p, yesLine, noLine, h] scan0"
    by (simp add: collect_def Let_def yesNoChunk_plain [OF assms(1,2)] scan0_def)
  also have "\<dots> = scanLine ?hint [noLine, yesLine, p] h
      (scanLine ?hint [yesLine, p] noLine (scanLine ?hint [p] yesLine (scanLine ?hint [] p scan0)))"
    by simp
  also have "\<dots> = \<lparr>scanOptions = [js ''Yes, proceed'', js ''No, abort''], scanSelected = 0,
            promptText = trim p, foundInteractive = True, foundArrow = True\<rparr>"
    using assms(3,4)
    by (simp add: scanLine_prompt scanLine_yes scanLine_no scanLine_hint findPrompt_prompt
        pushOption_def del: findPrompt.simps)
  finally show ?thesis .
qed

lemma detect_yesNoChunk:
  assumes "plainLine p" and "plainLine h" and "promptLine p" and "trailingLine h"
    and "\<not> inputHint (yesNoChunk p h)"
  shows "detectInteractiveSelect (yesNoChunk p h) now
      = Some \<lparr>selId = js ''interactive_'' @ decimal now, prompt = trim p,
              options = [js ''Yes, proceed'', js ''No, abort''], selectedIndex = 0\<rparr>"
proof -
  have "trim p \<noteq> []" using assms(3) by (simp add: promptLine_def)
  then show ?thesis
    using assms(5) yes_no_keywords
    by (simp add: detectInteractiveSelect_def Let_def yesNoChunk_plain(1) [OF assms(1,2)]
        collect_yesNoChunk [OF assms(1-4)])
qed

text \<open>The example lines meet the conditions.\<close>

lemma ex_lines:
  "plainLine exPrompt" "plainLine exHint" "plainLine exTabHint"
  "promptLine exPrompt" "trailingLine exHint" "trailingLine exTabHint"
  by (simp_all add: plainLine_def promptLine_def trailingLine_def exPrompt_def exHint_def
      exTabHint_def isControl_def trim_def arrowPattern_def numberedPattern_def one_def
      many1_def isMarker_def isWhiteSpace_def isDigit_def indented_def js_def)

lemma ex_hints:
  "\<not> inputHint (yesNoChunk exPrompt exHint)"
  "hasConfirmHint (yesNoChunk exPrompt exHint)"
  "inputHint (yesNoChunk exPrompt exTabHint)"
  by (simp_all add: inputHint_def hasConfirmHint_def testAnyCI_def contains_def lower_def
      yesNoChunk_def yesLine_def noLine_def exPrompt_def exHint_def exTabHint_def js_def)

text \<open>
  Claim C6: whenever the classifier emits a unit of an interactive selection, that unit
  is its whole output and carries the options the scan collected, these are at least
  two, and a hint phrase is present in the normalized text or some collected option
  holds a confirm or cancel keyword; and when the normalized text holds a hint of free
  text input, no interactive selection is detected and no such unit is emitted.
\<close>

theorem interactive_unit_requirements:
  "(\<forall>b \<in> set (parse data now). isInteractive b \<longrightarrow>
      parse data now = [b]
      \<and> confirmOptions b = Some (scanOptions (collect data))
      \<and> length (scanOptions (collect data)) \<ge> 2
      \<and> (hasConfirmHint (stripAnsi data) \<or> hasConfirmKeywords (scanOptions (collect data))))
   \<and> (inputHint (stripAnsi data) \<longrightarrow>
        detectInteractiveSelect data now = None
        \<and> (\<forall>b \<in> set (parse data now). \<not> isInteractive b))"
proof -
  have "parse data now = [b]
      \<and> confirmOptions b = Some (scanOptions (collect data))
      \<and> length (scanOptions (collect data)) \<ge> 2
      \<and> (hasConfirmHint (stripAnsi data) \<or> hasConfirmKeywords (scanOptions (collect data)))"
    if "b \<in> set (parse data now)" and "isInteractive b" for b
  proof (cases "detectInteractiveSelect data now")
    case None
    with that parse_without_selection show ?thesis by blast
  next
    case (Some sel)
    note facts = parse_with_selection [OF Some]
    from facts(1) that(1)
    have b: "b = confirmBlock (formatInteractiveSelect sel) now (options sel) (selId sel)"
      by simp
    then have "confirmOptions b = Some (scanOptions (collect data))"
      using facts(2) by (simp add: confirmBlock_def)
    with facts b show ?thesis by simp
  qed
  moreover have "detectInteractiveSelect data now = None
      \<and> (\<forall>b \<in> set (parse data now). \<not> isInteractive b)" if "inputHint (stripAnsi data)"
    using inputHint_no_selection [OF that] parse_without_selection by blast
  ultimately show ?thesis by blast
qed

theorem interactive_unit_requirements_witness:
  "list_all isInteractive (parse (yesNoChunk exPrompt exHint) 7)
   \<and> map confirmOptions (parse (yesNoChunk exPrompt exHint) 7)
       = [Some [js ''Yes, proceed'', js ''No, abort'']]
   \<and> scanOptions (collect (yesNoChunk exPrompt exHint)) = [js ''Yes, proceed'', js ''No, abort'']
   \<and> hasConfirmHint (stripAnsi (yesNoChunk exPrompt exHint))
   \<and> inputHint (stripAnsi (yesNoChunk exPrompt exTabHint))
   \<and> detectInteractiveSelect (yesNoChunk exPrompt exTabHint) 7 = None
   \<and> \<not> list_ex isInteractive (parse (yesNoChunk exPrompt exTabHint) 7)"
proof -
  have d: "detectInteractiveSelect (yesNoChunk exPrompt exHint) 7
      = Some \<lparr>selId = js ''interactive_'' @ decimal 7, prompt = trim exPrompt,
              options = [js ''Yes, proceed'', js ''No, abort''], selectedIndex = 0\<rparr>"
    using ex_lines ex_hints by (simp add: detect_yesNoChunk)
  have p: "parse (yesNoChunk exPrompt exHint) 7
      = [confirmBlock
           (formatInteractiveSelect
              \<lparr>selId = js ''interactive_'' @ decimal 7, prompt = trim exPrompt,
               options = [js ''Yes, proceed'', js ''No, abort''], selectedIndex = 0\<rparr>)
           7 [js ''Yes, proceed'', js ''No, abort''] (js ''interactive_'' @ decimal 7)]"
    by (simp add: parse_def d)
  have s: "stripAnsi (yesNoChunk exPrompt exHint) = yesNoChunk exPrompt exHint"
    "stripAnsi (yesNoChunk exPrompt exTabHint) = yesNoChunk exPrompt exTabHint"
    using ex_lines by (simp_all add: yesNoChunk_plain)
  have c: "scanOptions (collect (yesNoChunk exPrompt exHint))
      = [js ''Yes, proceed'', js ''No, abort'']"
    using ex_lines by (simp add: collect_yesNoChunk)
  show ?thesis
    using interactive_unit_requirements [of "yesNoChunk exPrompt exHint" 7]
      interactive_unit_requirements [of "yesNoChunk exPrompt exTabHint" 7]
      ex_hints
    by (simp add: p s c isInteractive_def confirmBlock_def createBlock_def list_ex_iff)
qed

subsection \<open>Chunks whose normalized text is the selection example\<close>










end
